theory Spec2Isabelle
  imports Main
begin

section \<open>A fragment of the host type system\<close>

text \<open>
  The repository consists of type declarations only (\<^verbatim>\<open>src/api/SchemaTypes.ts\<close>) and of
  fixtures that are meant to be accepted or rejected by the type checker.  The
  declarations are embedded as terms of a datatype of types; the fixtures are values of a
  datatype of literal expressions.

  A recursive alias cannot be written as a finite term, so the two recursive aliases of
  the source, \<^verbatim>\<open>LangType\<close> and \<^verbatim>\<open>ClassDef\<close>, are names that \<open>unfold\<close> expands by one
  step.  All other aliases are ordinary definitions.

  In an object type a field is a triple of its name, whether it is optional (\<^verbatim>\<open>?\<close>) and
  its type.
\<close>

datatype tname = LangType | ClassDef

datatype ty =
    TNever | TUnknown | TUndefined | TNull
  | TString | TNumber | TBigint | TBoolean | TRegExp
  | TStrLit string | TBoolLit bool
  | TArray ty | TTuple "ty list"
  | TObj "(string \<times> bool \<times> ty) list"
  | TRecord ty
  | TUnion "ty list" | TInter ty ty
  | TAlias tname

text \<open>
  Literal expressions as they occur in the fixtures: strings, numbers, bigints, booleans,
  regular expressions, array literals and object literals.  The values \<^verbatim>\<open>undefined\<close> and
  \<^verbatim>\<open>null\<close> are not part of this universe: whether they are assignable depends on compiler
  options (\<^verbatim>\<open>strictNullChecks\<close>, \<^verbatim>\<open>exactOptionalPropertyTypes\<close>) that the sources do not
  fix.  An optional property is therefore either absent or carries a proper value.
\<close>

datatype val = VStr string | VNum int | VBig int | VBool bool | VRegExp
  | VArr "val list" | VObj "(string \<times> val) list"

subsection \<open>The declarations of \<^verbatim>\<open>SchemaTypes.ts\<close>\<close>

text \<open>
  The file declares the property definitions twice.  The declarations embedded here are
  those of its second part (from line 342 on), where \<^verbatim>\<open>CommonPropDef\<close> has the field
  \<^verbatim>\<open>dt: DataType\<close>; the first part differs in that field only.  Declarations that the file
  has as comments only are not embedded.
\<close>

definition ScalarLangType :: ty where
  "ScalarLangType = TUnion [TString, TNumber, TBigint, TBoolean]"

definition NullLangType :: ty where
  "NullLangType = TUnion [TNull, TUndefined]"

definition StringDataType :: ty where
  "StringDataType = TUnion [TStrLit ''str'', TStrLit ''clob'']"

definition TemporalDataType :: ty where
  "TemporalDataType =
     TUnion [TStrLit ''date'', TStrLit ''time'', TStrLit ''datetime'', TStrLit ''timestamp'']"

definition IntegerDataType :: ty where
  "IntegerDataType = TUnion [TStrLit ''int'', TStrLit ''bigint'', TStrLit ''bit'', TStrLit ''year'']"

definition RealDataType :: ty where
  "RealDataType = TUnion [TStrLit ''real'', TStrLit ''dec'']"

definition BigintDataType :: ty where
  "BigintDataType = TUnion [TStrLit ''bigint'', TStrLit ''bit'']"

definition NumericDataType :: ty where
  "NumericDataType = TUnion [IntegerDataType, RealDataType]"

definition BoolDataType :: ty where
  "BoolDataType = TStrLit ''bool''"

definition NonBoolDataType :: ty where
  "NonBoolDataType = TUnion [StringDataType, NumericDataType, TemporalDataType]"

definition ScalarDataType :: ty where
  "ScalarDataType = TUnion [StringDataType, NumericDataType, TemporalDataType, BoolDataType]"

definition DataType :: ty where
  "DataType = TUnion [ScalarDataType, TStrLit ''link'', TStrLit ''multilink'', TStrLit ''obj'',
     TStrLit ''arr'', TStrLit ''any'']"

definition KeyPropDataType :: ty where
  "KeyPropDataType = TUnion [ScalarDataType, TAlias ClassDef]"

definition KeyDataType :: ty where
  "KeyDataType = TRecord KeyPropDataType"

fun unfold :: "tname \<Rightarrow> ty" where
  "unfold LangType =
     TUnion [ScalarLangType, TRecord (TAlias LangType), TArray (TAlias LangType), NullLangType]"
| "unfold ClassDef =
     TObj [(''name'', False, TString),
           (''key'', True, TUnion [KeyDataType, TBoolLit True]),
           (''unique'', True, TArray KeyDataType)]"

definition CommonPropDef :: ty where
  "CommonPropDef =
     TObj [(''dt'', False, DataType), (''required'', True, TBoolean), (''unique'', True, TBoolean)]"

definition StringPropDef :: ty where
  "StringPropDef = TInter CommonPropDef
     (TObj [(''dt'', False, TStrLit ''str''), (''minlen'', True, TNumber), (''maxlen'', True, TNumber),
            (''regex'', True, TRegExp), (''choices'', True, TArray TString)])"

definition ClobPropDef :: ty where
  "ClobPropDef = TInter CommonPropDef
     (TObj [(''dt'', False, TStrLit ''clob''), (''minlen'', True, TNumber), (''maxlen'', True, TNumber)])"

definition IntPropDef :: ty where
  "IntPropDef = TInter CommonPropDef
     (TObj [(''dt'', False, TStrLit ''int''), (''min'', True, TNumber), (''max'', True, TNumber),
            (''step'', True, TNumber)])"

definition BigIntPropDef :: ty where
  "BigIntPropDef = TInter CommonPropDef
     (TObj [(''dt'', False, TStrLit ''bigint''), (''min'', True, TBigint), (''max'', True, TBigint)])"

definition RealPropDef :: ty where
  "RealPropDef = TInter CommonPropDef
     (TObj [(''dt'', False, TStrLit ''real''), (''precision'', True, TNumber),
            (''min'', True, TNumber), (''max'', True, TNumber)])"

definition DecimalPropDef :: ty where
  "DecimalPropDef = TInter CommonPropDef
     (TObj [(''dt'', False, TStrLit ''dec''),
            (''precision'', True, TUnion [TNumber, TTuple [TNumber, TNumber]]),
            (''min'', True, TNumber), (''max'', True, TNumber)])"

definition BitValuePropDef :: ty where
  "BitValuePropDef = TInter CommonPropDef
     (TObj [(''dt'', False, TStrLit ''bit''), (''size'', True, TNumber)])"

definition BoolPropDef :: ty where
  "BoolPropDef = TInter CommonPropDef (TObj [(''dt'', False, TStrLit ''bool'')])"

definition DatePropDef :: ty where
  "DatePropDef = TInter CommonPropDef (TObj [(''dt'', False, TStrLit ''date'')])"

definition TimePropDef :: ty where
  "TimePropDef = TInter CommonPropDef
     (TObj [(''dt'', False, TStrLit ''time''), (''precision'', True, TNumber)])"

definition DateTimePropDef :: ty where
  "DateTimePropDef = TInter CommonPropDef
     (TObj [(''dt'', False, TStrLit ''datetime''), (''precision'', True, TNumber)])"

definition TimestampPropDef :: ty where
  "TimestampPropDef = TInter CommonPropDef
     (TObj [(''dt'', False, TStrLit ''timestamp''), (''precision'', True, TNumber)])"

definition YearPropDef :: ty where
  "YearPropDef = TInter CommonPropDef (TObj [(''dt'', False, TStrLit ''year'')])"

definition ALinkPropDef :: ty where
  "ALinkPropDef = TInter CommonPropDef
     (TObj [(''dt'', False, TStrLit ''link''), (''target'', False, TString)])"

subsection \<open>Assigning a literal to a declared type\<close>

text \<open>
  Every recursion below either descends into the value or into the type without expanding
  a name, or expands a name; \<open>weight\<close> bounds how often a name can be expanded before the
  value has to become smaller.
\<close>

fun weight :: "ty \<Rightarrow> nat" where
  "weight (TUnion ts) = Suc (sum_list (map weight ts))"
| "weight (TInter a b) = Suc (weight a + weight b)"
| "weight (TAlias LangType) = 4"
| "weight (TAlias ClassDef) = 1"
| "weight _ = 0"

lemma weight_unfold: "weight (unfold a) < weight (TAlias a)"
  by (cases a) (simp_all add: ScalarLangType_def NullLangType_def)

lemma weight_member: "t \<in> set ts \<Longrightarrow> weight t < Suc (sum_list (map weight ts))"
  by (induction ts) auto

lemma val_size_arr: "x \<in> set xs \<Longrightarrow> size (x::val) < Suc (size_list size xs)"
  by (induction xs) auto

lemma val_size_obj:
  "(n, x) \<in> set fs \<Longrightarrow> size (x::val) < Suc (size_list (size_prod (\<lambda>x. 0) size) fs)"
  by (induction fs) auto

text \<open>
  \<open>assignable T v\<close>: the literal \<open>v\<close> has the structure that \<open>T\<close> asks for.  A required
  field must be present, a field that is present must have the declared type, further
  fields are not looked at.  Only an object literal has an object type: the members that
  strings, numbers and arrays have as objects of the host language (\<^verbatim>\<open>length\<close>,
  \<^verbatim>\<open>toString\<close>) are not modelled.
\<close>

function assignable :: "ty \<Rightarrow> val \<Rightarrow> bool" where
  "assignable TNever v = False"
| "assignable TUnknown v = True"
| "assignable TUndefined v = False"
| "assignable TNull v = False"
| "assignable TString v = (case v of VStr _ \<Rightarrow> True | _ \<Rightarrow> False)"
| "assignable TNumber v = (case v of VNum _ \<Rightarrow> True | _ \<Rightarrow> False)"
| "assignable TBigint v = (case v of VBig _ \<Rightarrow> True | _ \<Rightarrow> False)"
| "assignable TBoolean v = (case v of VBool _ \<Rightarrow> True | _ \<Rightarrow> False)"
| "assignable TRegExp v = (v = VRegExp)"
| "assignable (TStrLit s) v = (v = VStr s)"
| "assignable (TBoolLit b) v = (v = VBool b)"
| "assignable (TArray t) v = (case v of VArr xs \<Rightarrow> list_all (assignable t) xs | _ \<Rightarrow> False)"
| "assignable (TTuple ts) v = (case v of VArr xs \<Rightarrow> list_all2 assignable ts xs | _ \<Rightarrow> False)"
| "assignable (TObj gs) v =
     (case v of
        VObj fs \<Rightarrow>
          list_all (\<lambda>(n, opt, t). case map_of fs n of None \<Rightarrow> opt | Some x \<Rightarrow> assignable t x) gs
      | _ \<Rightarrow> False)"
| "assignable (TRecord t) v =
     (case v of VObj fs \<Rightarrow> list_all (\<lambda>(n, x). assignable t x) fs | _ \<Rightarrow> False)"
| "assignable (TUnion ts) v = list_ex (\<lambda>t. assignable t v) ts"
| "assignable (TInter a b) v = (assignable a v \<and> assignable b v)"
| "assignable (TAlias a) v = assignable (unfold a) v"
  by pat_completeness auto
termination
  by (relation "measures [\<lambda>p. size (snd p), \<lambda>p. weight (fst p)]")
     (auto simp: weight_unfold weight_member val_size_arr val_size_obj dest: map_of_SomeD)

text \<open>
  An object literal may not name a property that its target does not know.  In a union
  or an intersection a name is known when one constituent knows it; an index signature
  knows every name.
\<close>

function known :: "ty \<Rightarrow> string \<Rightarrow> bool" where
  "known (TObj gs) n = (n \<in> set (map fst gs))"
| "known (TRecord t) n = True"
| "known (TUnion ts) n = list_ex (\<lambda>t. known t n) ts"
| "known (TInter a b) n = (known a n \<or> known b n)"
| "known (TAlias a) n = known (unfold a) n"
| "known TNever n = False"
| "known TUnknown n = False"
| "known TUndefined n = False"
| "known TNull n = False"
| "known TString n = False"
| "known TNumber n = False"
| "known TBigint n = False"
| "known TBoolean n = False"
| "known TRegExp n = False"
| "known (TStrLit s) n = False"
| "known (TBoolLit b) n = False"
| "known (TArray t) n = False"
| "known (TTuple ts) n = False"
  by pat_completeness auto
termination
  by (relation "measure (\<lambda>p. weight (fst p))") (auto simp: weight_unfold weight_member)

text \<open>
  The check descends into the literals nested in an object or array type; below a union,
  an intersection or a name only the names of the literal itself are checked.
\<close>

fun excess_ok :: "ty \<Rightarrow> val \<Rightarrow> bool" where
  "excess_ok T (VObj fs) =
     (case T of
        TObj gs \<Rightarrow>
          list_all (\<lambda>(n, x). case map_of gs n of None \<Rightarrow> False | Some (opt, t) \<Rightarrow> excess_ok t x) fs
      | TRecord t \<Rightarrow> list_all (\<lambda>(n, x). excess_ok t x) fs
      | _ \<Rightarrow> list_all (\<lambda>(n, x). known T n) fs)"
| "excess_ok T (VArr xs) =
     (case T of
        TArray t \<Rightarrow> list_all (excess_ok t) xs
      | TTuple ts \<Rightarrow> list_all2 excess_ok ts xs
      | _ \<Rightarrow> True)"
| "excess_ok T (VStr s) = True"
| "excess_ok T (VNum i) = True"
| "excess_ok T (VBig i) = True"
| "excess_ok T (VBool b) = True"
| "excess_ok T VRegExp = True"

definition accepts :: "ty \<Rightarrow> val \<Rightarrow> bool" where
  "accepts T v = (assignable T v \<and> excess_ok T v)"

subsection \<open>Conditional types\<close>

text \<open>
  \<open>reach P T\<close> takes the target of an \<^verbatim>\<open>extends\<close> test apart: a union is reached through one
  of its members, an intersection through both sides, a name as itself or through its
  expansion, \<^verbatim>\<open>unknown\<close> always; \<open>P\<close> decides at the types that remain.
\<close>

function reach :: "(ty \<Rightarrow> bool) \<Rightarrow> ty \<Rightarrow> bool" where
  "reach P (TUnion ts) = list_ex (reach P) ts"
| "reach P (TInter a b) = (reach P a \<and> reach P b)"
| "reach P (TAlias a) = (P (TAlias a) \<or> reach P (unfold a))"
| "reach P TNever = P TNever"
| "reach P TUnknown = True"
| "reach P TUndefined = P TUndefined"
| "reach P TNull = P TNull"
| "reach P TString = P TString"
| "reach P TNumber = P TNumber"
| "reach P TBigint = P TBigint"
| "reach P TBoolean = P TBoolean"
| "reach P TRegExp = P TRegExp"
| "reach P (TStrLit s) = P (TStrLit s)"
| "reach P (TBoolLit b) = P (TBoolLit b)"
| "reach P (TArray t) = P (TArray t)"
| "reach P (TTuple ts) = P (TTuple ts)"
| "reach P (TObj gs) = P (TObj gs)"
| "reach P (TRecord t) = P (TRecord t)"
  by pat_completeness auto
termination
  by (relation "measure (\<lambda>p. weight (snd p))") (auto simp: weight_unfold weight_member)

lemma ty_size_field:
  "(n, opt, t) \<in> set gs \<Longrightarrow>
     size (t::ty) < Suc (size_list (size_prod (\<lambda>x. 0) (size_prod (\<lambda>x. 0) size)) gs)"
  by (induction gs) auto

text \<open>
  \<open>extends S T\<close> is the test \<^verbatim>\<open>S extends T\<close> of a conditional type, for the types that the
  conditional types of the source meet: literals and primitive types, arrays, tuples,
  records and object types, and unions of these.  A name on the left is matched by name
  only, and an intersection on the left through one of its sides.
\<close>

lemma ty_size_member: "t \<in> set ts \<Longrightarrow> size (t::ty) < Suc (size_list size ts)"
  by (induction ts) auto

function "extends" :: "ty \<Rightarrow> ty \<Rightarrow> bool" where
  "extends TNever T = True"
| "extends TUnknown T = reach (\<lambda>t. False) T"
| "extends (TUnion ss) T = list_all (\<lambda>s. extends s T) ss"
| "extends (TInter a b) T = (extends a T \<or> extends b T)"
| "extends (TAlias a) T = reach (\<lambda>t. t = TAlias a) T"
| "extends TUndefined T = reach (\<lambda>t. t = TUndefined) T"
| "extends TNull T = reach (\<lambda>t. t = TNull) T"
| "extends TString T = reach (\<lambda>t. t = TString) T"
| "extends TNumber T = reach (\<lambda>t. t = TNumber) T"
| "extends TBigint T = reach (\<lambda>t. t = TBigint) T"
| "extends TRegExp T = reach (\<lambda>t. t = TRegExp) T"
| "extends (TStrLit s) T = reach (\<lambda>t. t = TStrLit s \<or> t = TString) T"
| "extends (TBoolLit b) T = reach (\<lambda>t. t = TBoolLit b \<or> t = TBoolean) T"
| "extends TBoolean T =
     (reach (\<lambda>t. t = TBoolean) T \<or>
      reach (\<lambda>t. t = TBoolLit True \<or> t = TBoolean) T \<and> reach (\<lambda>t. t = TBoolLit False \<or> t = TBoolean) T)"
| "extends (TArray s) T = reach (\<lambda>t. case t of TArray t' \<Rightarrow> extends s t' | _ \<Rightarrow> False) T"
| "extends (TTuple ss) T =
     reach (\<lambda>t. case t of
                  TArray t' \<Rightarrow> list_all (\<lambda>s. extends s t') ss
                | TTuple ts \<Rightarrow>
                    length ss = length ts \<and> list_all (\<lambda>(s, t'). extends s t') (zip ss ts)
                | _ \<Rightarrow> False) T"
| "extends (TRecord s) T = reach (\<lambda>t. case t of TRecord t' \<Rightarrow> extends s t' | _ \<Rightarrow> False) T"
| "extends (TObj fs) T =
     reach (\<lambda>t. case t of
                  TRecord t' \<Rightarrow>
                    list_all (\<lambda>(n, opt, s). extends s t' \<and> (if opt then reach (\<lambda>u. u = TUndefined) t' else True)) fs
                | TObj gs \<Rightarrow>
                    list_all (\<lambda>(n, opt, t'). case map_of fs n of
                                 None \<Rightarrow> opt
                               | Some (opt', s) \<Rightarrow> (if opt' then opt else True) \<and> extends s t') gs
                | _ \<Rightarrow> False) T"
  by pat_completeness auto
termination
  by (relation "measure (\<lambda>p. size (fst p))")
     (auto simp: ty_size_member dest!: map_of_SomeD ty_size_field set_zip_leftD)

text \<open>
  A conditional type whose checked type is a type parameter distributes over the members
  of a union: \<open>members\<close> lists them (\<^verbatim>\<open>boolean\<close> is the union of \<^verbatim>\<open>true\<close> and \<^verbatim>\<open>false\<close>,
  \<^verbatim>\<open>never\<close> is the empty union), and \<open>union_of\<close> joins the results again.
\<close>

function members :: "ty \<Rightarrow> ty list" where
  "members (TUnion ts) = concat (map members ts)"
| "members (TAlias a) = members (unfold a)"
| "members TNever = []"
| "members TUnknown = [TUnknown]"
| "members TBoolean = [TBoolLit True, TBoolLit False]"
| "members TUndefined = [TUndefined]"
| "members TNull = [TNull]"
| "members TString = [TString]"
| "members TNumber = [TNumber]"
| "members TBigint = [TBigint]"
| "members TRegExp = [TRegExp]"
| "members (TStrLit s) = [TStrLit s]"
| "members (TBoolLit b) = [TBoolLit b]"
| "members (TArray t) = [TArray t]"
| "members (TTuple ts) = [TTuple ts]"
| "members (TObj gs) = [TObj gs]"
| "members (TRecord t) = [TRecord t]"
| "members (TInter a b) = [TInter a b]"
  by pat_completeness auto
termination
  by (relation "measure weight") (auto simp: weight_unfold weight_member)

fun flat :: "ty \<Rightarrow> ty list" where
  "flat (TUnion ts) = concat (map flat ts)"
| "flat TNever = []"
| "flat t = [t]"

definition union_of :: "ty list \<Rightarrow> ty" where
  "union_of ts =
     (case remdups (concat (map flat ts)) of [] \<Rightarrow> TNever | [t] \<Rightarrow> t | us \<Rightarrow> TUnion us)"

text \<open>\<^verbatim>\<open>DataTypeOf<T extends LangType>\<close>, one member of \<open>T\<close> at a time.\<close>

definition DataTypeOf1 :: "ty \<Rightarrow> ty" where
  "DataTypeOf1 T =
     (if extends T TString then
        TUnion [TStrLit ''str'', TStrLit ''clob'', TStrLit ''date'', TStrLit ''time'',
                TStrLit ''datetime'', TStrLit ''timestamp'']
      else if extends T TNumber then
        TUnion [TStrLit ''int'', TStrLit ''real'', TStrLit ''dec'', TStrLit ''year'']
      else if extends T TBigint then TUnion [TStrLit ''bigint'', TStrLit ''bit'']
      else if extends T TBoolean then TStrLit ''bool''
      else if extends T (TArray (TAlias LangType)) then TUnion [TStrLit ''multilink'', TStrLit ''arr'']
      else if extends T (TRecord (TAlias LangType)) then TUnion [TStrLit ''link'', TStrLit ''obj'']
      else TUndefined)"

definition DataTypeOf :: "ty \<Rightarrow> ty" where
  "DataTypeOf T = union_of (map DataTypeOf1 (members T))"

text \<open>\<^verbatim>\<open>LangTypeOf<DT extends DataType | undefined | null>\<close>, in the order of the source.\<close>

definition LangTypeOf1 :: "ty \<Rightarrow> ty" where
  "LangTypeOf1 DT =
     (if extends DT (TUnion [StringDataType, TemporalDataType]) then TString
      else if extends DT BigintDataType then TBigint
      else if extends DT NumericDataType then TNumber
      else if extends DT BoolDataType then TBoolean
      else if extends DT TUndefined then TUndefined
      else if extends DT TNull then TNull
      else if extends DT (TUnion [TStrLit ''multilink'', TStrLit ''arr'']) then TArray (TAlias LangType)
      else if extends DT (TUnion [TStrLit ''link'', TStrLit ''obj'']) then TRecord (TAlias LangType)
      else TNever)"

definition LangTypeOf :: "ty \<Rightarrow> ty" where
  "LangTypeOf DT = union_of (map LangTypeOf1 (members DT))"

section \<open>Utility types\<close>

text \<open>
  The utility types that the fixtures import from \<^verbatim>\<open>../index\<close> are declared in the third part
  of \<^verbatim>\<open>src/webpack.config.js\<close> (lines 51 to 153).  They are built from conditional types,
  mapped types and the library types \<^verbatim>\<open>Exclude\<close>, \<^verbatim>\<open>Partial\<close> and \<^verbatim>\<open>Record\<close>.  Where a result
  would need a type that the datatype \<open>ty\<close> does not have (the members of host objects, an
  index signature next to named properties, the type \<^verbatim>\<open>symbol\<close>), the function returns
  \<open>None\<close>.
\<close>

subsection \<open>Unions and the test of a conditional type\<close>

text \<open>
  A type is related to itself without being compared; otherwise \<^verbatim>\<open>S extends T\<close> is
  \<open>extends S T\<close>.
\<close>

definition ext :: "ty \<Rightarrow> ty \<Rightarrow> bool" where
  "ext S T = (S = T \<or> extends S T)"

text \<open>
  A union does not keep a literal type next to its primitive type (\<^verbatim>\<open>"a" | string\<close> is
  \<^verbatim>\<open>string\<close>) and keeps each member once.  \<open>constituents\<close> are the members of a union in
  that form: over them a conditional type on a type parameter distributes.
\<close>

fun sub_lit :: "ty \<Rightarrow> ty \<Rightarrow> bool" where
  "sub_lit (TStrLit s) t = (t = TString)"
| "sub_lit (TBoolLit b) t = (t = TBoolean)"
| "sub_lit _ t = False"

definition absorb :: "ty list \<Rightarrow> ty list" where
  "absorb ms = rev (remdups (rev (filter (\<lambda>m. \<not> list_ex (sub_lit m) ms) ms)))"

definition constituents :: "ty \<Rightarrow> ty list" where
  "constituents T = absorb (members T)"

definition norm_union :: "ty list \<Rightarrow> ty" where
  "norm_union ts =
     (case absorb (concat (map flat ts)) of [] \<Rightarrow> TNever | [t] \<Rightarrow> t | us \<Rightarrow> TUnion us)"

text \<open>Two types are the same union when they have the same constituents.\<close>

definition same_union :: "ty \<Rightarrow> ty \<Rightarrow> bool" where
  "same_union A B = (set (constituents A) = set (constituents B))"

text \<open>
  \<^verbatim>\<open>Exclude<T, U> = T extends U ? never : T\<close>, \<^verbatim>\<open>Record<K, V> = { [P in K]: V }\<close> and
  \<^verbatim>\<open>Partial<T> = { [P in keyof T]?: T[P] }\<close> of the standard library.  \<open>Record\<close> is given
  for keys that are string literals: other keys make index signatures.
\<close>

definition Exclude :: "ty \<Rightarrow> ty \<Rightarrow> ty" where
  "Exclude T U = norm_union (map (\<lambda>m. if ext m U then TNever else m) (constituents T))"

definition lit_names :: "ty \<Rightarrow> string list option" where
  "lit_names K = those (map (\<lambda>m. case m of TStrLit s \<Rightarrow> Some s | _ \<Rightarrow> None) (constituents K))"

definition Record :: "ty \<Rightarrow> ty \<Rightarrow> ty option" where
  "Record K V = map_option (\<lambda>ns. TObj (map (\<lambda>n. (n, False, V)) ns)) (lit_names K)"

fun Partial :: "ty \<Rightarrow> ty option" where
  "Partial (TObj gs) = Some (TObj (map (\<lambda>(n, opt, t). (n, True, t)) gs))"
| "Partial _ = None"

text \<open>
  \<^verbatim>\<open>keyof\<close>: the names of an object type, \<^verbatim>\<open>string | number\<close> for an index signature, the
  names of both sides of an intersection, the names common to all members of a union.
\<close>

definition key_meet :: "ty \<Rightarrow> ty \<Rightarrow> ty" where
  "key_meet a b =
     norm_union (filter (\<lambda>m. ext m b) (constituents a) @ filter (\<lambda>m. ext m a) (constituents b))"

function keyof :: "ty \<Rightarrow> ty option" where
  "keyof (TObj gs) = Some (norm_union (map (\<lambda>g. TStrLit (fst g)) gs))"
| "keyof (TRecord t) = Some (TUnion [TString, TNumber])"
| "keyof (TInter a b) =
     (case keyof a of None \<Rightarrow> None
      | Some x \<Rightarrow> (case keyof b of None \<Rightarrow> None | Some y \<Rightarrow> Some (norm_union [x, y])))"
| "keyof (TUnion ts) =
     (case those (map (\<lambda>t. keyof t) ts) of
        None \<Rightarrow> None
      | Some [] \<Rightarrow> None
      | Some (k # ks) \<Rightarrow> Some (foldl key_meet k ks))"
| "keyof (TAlias a) = keyof (unfold a)"
| "keyof TUnknown = Some TNever"
| "keyof TNever = None"
| "keyof TUndefined = None"
| "keyof TNull = None"
| "keyof TString = None"
| "keyof TNumber = None"
| "keyof TBigint = None"
| "keyof TBoolean = None"
| "keyof TRegExp = None"
| "keyof (TStrLit s) = None"
| "keyof (TBoolLit b) = None"
| "keyof (TArray t) = None"
| "keyof (TTuple ts) = None"
  by pat_completeness auto
termination
  by (relation "measure weight") (auto simp: weight_unfold weight_member)

subsection \<open>\<^verbatim>\<open>ArrayToUnion\<close>, \<^verbatim>\<open>UnionKeys\<close> and \<^verbatim>\<open>XOR\<close>\<close>

text \<open>\<^verbatim>\<open>ArrayToUnion<T extends any[]> = T[number]\<close> (line 113).\<close>

fun ArrayToUnion :: "ty \<Rightarrow> ty option" where
  "ArrayToUnion (TTuple ts) = Some (norm_union ts)"
| "ArrayToUnion (TArray t) = Some t"
| "ArrayToUnion _ = None"

text \<open>\<^verbatim>\<open>UnionKeys<T> = T extends T ? keyof T : never\<close> (line 66).\<close>

definition UnionKeys :: "ty \<Rightarrow> ty option" where
  "UnionKeys T =
     map_option norm_union
       (those (map (\<lambda>m. if ext m m then keyof m else Some TNever) (constituents T)))"

text \<open>
  \<^verbatim>\<open>XOR<T extends any[]>\<close> (lines 89 to 91).  \<open>XOR_elem T Ti\<close> is the element type of the
  mapped type, \<^verbatim>\<open>T[i] & Partial<Record<Exclude<UnionKeys<T[number]>, keyof T[i]>, never>>\<close>; the
  mapped type of a tuple is the tuple of these, and \<^verbatim>\<open>[number]\<close> is their union.
\<close>

definition XOR_elem :: "ty \<Rightarrow> ty \<Rightarrow> ty option" where
  "XOR_elem T Ti =
     (case ArrayToUnion T of None \<Rightarrow> None | Some N \<Rightarrow>
      case UnionKeys N of None \<Rightarrow> None | Some U \<Rightarrow>
      case keyof Ti of None \<Rightarrow> None | Some K \<Rightarrow>
      case Record (Exclude U K) TNever of None \<Rightarrow> None | Some R \<Rightarrow>
      case Partial R of None \<Rightarrow> None | Some P \<Rightarrow> Some (TInter Ti P))"

definition XOR :: "ty \<Rightarrow> ty option" where
  "XOR T =
     (case T of
        TTuple ts \<Rightarrow>
          (case those (map (XOR_elem T) ts) of None \<Rightarrow> None | Some bs \<Rightarrow> ArrayToUnion (TTuple bs))
      | TArray t \<Rightarrow> XOR_elem T t
      | _ \<Rightarrow> None)"

text \<open>The shapes and values of \<^verbatim>\<open>src/test/TestUtilTypes.ts\<close>.\<close>

definition User :: ty where
  "User = TObj [(''username'', False, TString), (''name'', False, TString), (''first'', True, TString)]"

definition Group :: ty where
  "Group = TObj [(''name'', False, TString), (''members'', True, TArray TString)]"

definition o2 :: val where
  "o2 = VObj [(''username'', VStr ''a''), (''name'', VStr ''b''), (''members'', VArr [])]"

definition o3 :: val where
  "o3 = VObj [(''username'', VStr ''a''), (''name'', VStr ''b'')]"

definition o4 :: val where
  "o4 = VObj [(''name'', VStr ''c''), (''members'', VArr [])]"

subsection \<open>\<^verbatim>\<open>UnionToIntersection\<close>\<close>

text \<open>
  \<^verbatim>\<open>UnionToIntersection<U>\<close> (lines 102 and 103) distributes over the constituents of \<open>U\<close>,
  makes of each the function type \<^verbatim>\<open>(x: U) => void\<close>, and infers \<open>I\<close> from the parameter
  position of all of them: candidates in a contravariant position are intersected.  For
  \<^verbatim>\<open>never\<close> there is no candidate and \<open>I\<close> is \<^verbatim>\<open>unknown\<close>.  What remains is how the checker
  forms an intersection.

  Two types of an intersection \<open>clash\<close> when no value has both: two different literal
  types, or types of two different primitive types.  An object type clashes neither with
  an object type nor with a primitive type.  Under \<^verbatim>\<open>strictNullChecks\<close> (the parameter
  \<open>snc\<close>) \<^verbatim>\<open>undefined\<close> and \<^verbatim>\<open>null\<close> clash with each other and with all of these.  The answer
  is \<open>None\<close> where it is not given here: for \<^verbatim>\<open>true\<close> or \<^verbatim>\<open>false\<close> against \<^verbatim>\<open>string\<close>,
  \<^verbatim>\<open>number\<close> or \<^verbatim>\<open>bigint\<close>, for \<^verbatim>\<open>undefined\<close> and \<^verbatim>\<open>null\<close> without \<^verbatim>\<open>strictNullChecks\<close>, and
  for \<^verbatim>\<open>unknown\<close>, names and nested intersections.
\<close>

fun parts :: "ty \<Rightarrow> ty list" where
  "parts (TInter a b) = parts a @ parts b"
| "parts t = [t]"

fun base :: "ty \<Rightarrow> ty option" where
  "base TString = Some TString"
| "base (TStrLit s) = Some TString"
| "base TNumber = Some TNumber"
| "base TBigint = Some TBigint"
| "base (TBoolLit b) = Some TBoolean"
| "base _ = None"

fun is_lit :: "ty \<Rightarrow> bool" where
  "is_lit (TStrLit s) = True"
| "is_lit (TBoolLit b) = True"
| "is_lit _ = False"

fun nullable :: "ty \<Rightarrow> bool" where
  "nullable TUndefined = True"
| "nullable TNull = True"
| "nullable _ = False"

fun object_like :: "ty \<Rightarrow> bool" where
  "object_like (TObj gs) = True"
| "object_like (TRecord t) = True"
| "object_like (TArray t) = True"
| "object_like (TTuple ts) = True"
| "object_like TRegExp = True"
| "object_like _ = False"

definition clash :: "bool \<Rightarrow> ty \<Rightarrow> ty \<Rightarrow> bool option" where
  "clash snc a b =
     (if a = b then Some False
      else if nullable a then
        (if snc \<and> (nullable b \<or> object_like b \<or> base b \<noteq> None) then Some True else None)
      else if nullable b then
        (if snc \<and> (object_like a \<or> base a \<noteq> None) then Some True else None)
      else if object_like a \<and> (object_like b \<or> base b \<noteq> None) then Some False
      else if object_like b \<and> base a \<noteq> None then Some False
      else if is_lit a \<and> is_lit b then Some True
      else (case (base a, base b) of
              (Some x, Some y) \<Rightarrow>
                if x = y then Some False
                else if x = TBoolean \<or> y = TBoolean then None
                else Some True
            | _ \<Rightarrow> None))"

definition any3 :: "bool option list \<Rightarrow> bool option" where
  "any3 xs = (if Some True \<in> set xs then Some True else if None \<in> set xs then None else Some False)"

definition all3 :: "bool option list \<Rightarrow> bool option" where
  "all3 xs = (if Some False \<in> set xs then Some False else if None \<in> set xs then None else Some True)"

text \<open>
  An intersection of types that are not unions is empty when two of them clash; an
  intersection of unions, each given by its constituents, is the union of the
  intersections of their constituents.
\<close>

definition empty_meet :: "bool \<Rightarrow> ty list \<Rightarrow> bool option" where
  "empty_meet snc c = any3 (map (\<lambda>(a, b). clash snc a b) (List.product c c))"

definition never_meet :: "bool \<Rightarrow> ty list list \<Rightarrow> bool option" where
  "never_meet snc css = all3 (map (empty_meet snc) (product_lists css))"

text \<open>
  An intersection of object types is reduced to \<^verbatim>\<open>never\<close> when one of its properties is a
  discriminant of the type \<^verbatim>\<open>never\<close>: the property is not optional in the intersection
  (it is optional there when all its declarations in the constituents are), one of the
  declarations has a literal type (a unit type or a union of unit types), none has the type
  \<^verbatim>\<open>never\<close>, and the intersection of their types is empty.  Under \<^verbatim>\<open>strictNullChecks\<close> the
  type of an optional property includes \<^verbatim>\<open>undefined\<close>.
\<close>

definition entries :: "string \<Rightarrow> (string \<times> bool \<times> ty) list list \<Rightarrow> (bool \<times> ty) list" where
  "entries n fss = concat (map (\<lambda>fs. case map_of fs n of None \<Rightarrow> [] | Some e \<Rightarrow> [e]) fss)"

definition prop_types :: "bool \<Rightarrow> bool \<times> ty \<Rightarrow> ty list" where
  "prop_types snc e = constituents (snd e) @ (if fst e \<and> snc then [TUndefined] else [])"

fun unit_type :: "ty \<Rightarrow> bool" where
  "unit_type (TStrLit s) = True"
| "unit_type (TBoolLit b) = True"
| "unit_type TUndefined = True"
| "unit_type TNull = True"
| "unit_type _ = False"

definition literal_prop :: "bool \<Rightarrow> bool \<times> ty \<Rightarrow> bool" where
  "literal_prop snc e = (prop_types snc e \<noteq> [] \<and> list_all unit_type (prop_types snc e))"

definition never_prop :: "bool \<Rightarrow> bool \<times> ty \<Rightarrow> bool" where
  "never_prop snc e = (prop_types snc e = [])"

definition discriminant_never :: "bool \<Rightarrow> (bool \<times> ty) list \<Rightarrow> bool option" where
  "discriminant_never snc es =
     (if list_all fst es then Some False
      else if list_ex (never_prop snc) es then Some False
      else if list_ex (literal_prop snc) es then never_meet snc (map (prop_types snc) es)
      else Some False)"

definition conflict :: "bool \<Rightarrow> (string \<times> bool \<times> ty) list list \<Rightarrow> bool option" where
  "conflict snc fss =
     any3 (map (\<lambda>n. discriminant_never snc (entries n fss)) (remdups (concat (map (map fst) fss))))"

fun meet :: "ty list \<Rightarrow> ty" where
  "meet [] = TUnknown"
| "meet [t] = t"
| "meet (t # ts) = TInter t (meet ts)"

fun fields :: "ty \<Rightarrow> (string \<times> bool \<times> ty) list option" where
  "fields (TObj fs) = Some fs"
| "fields _ = None"

text \<open>
  The intersection of a list of types: \<^verbatim>\<open>unknown\<close> is dropped and \<^verbatim>\<open>never\<close> absorbs; object
  types stay side by side unless a discriminant reduces them to \<^verbatim>\<open>never\<close>; primitive and
  literal types give \<^verbatim>\<open>never\<close> when they clash, and otherwise lose a primitive type next to
  one of its literals.  Other intersections are not given here.
\<close>

definition intersection :: "bool \<Rightarrow> ty list \<Rightarrow> ty option" where
  "intersection snc ts =
     (let ps = remdups (filter (\<lambda>p. p \<noteq> TUnknown) (concat (map parts ts))) in
      if TNever \<in> set ps then Some TNever
      else case those (map fields ps) of
        Some fss \<Rightarrow>
          (case conflict snc fss of
             None \<Rightarrow> None
           | Some c \<Rightarrow> Some (if c then TNever else meet ps))
      | None \<Rightarrow>
          if list_all (\<lambda>p. base p \<noteq> None \<or> nullable p) ps then
            (case empty_meet snc ps of
               None \<Rightarrow> None
             | Some e \<Rightarrow>
                 Some (if e then TNever else meet (filter (\<lambda>p. \<not> list_ex (\<lambda>q. sub_lit q p) ps) ps)))
          else None)"

definition UnionToIntersection :: "bool \<Rightarrow> ty \<Rightarrow> ty option" where
  "UnionToIntersection snc U =
     (if TUnknown \<in> set (constituents U) then Some TUnknown else intersection snc (constituents U))"

subsection \<open>\<^verbatim>\<open>UnionToTuple\<close>\<close>

text \<open>
  \<^verbatim>\<open>UnionToTuple<T>\<close> (lines 121 to 124).  The conditional type
  \<^verbatim>\<open>T extends never ? never : (t: T) => T\<close> distributes over the constituents \<open>m\<close> of \<open>T\<close> and
  gives the function types \<^verbatim>\<open>(t: m) => m\<close>; \<^verbatim>\<open>UnionToIntersection\<close> makes of them one type with
  these call signatures, in the order of the constituents.  From a type with several
  signatures \<open>W\<close> is inferred from the last one, so \<open>W\<close> is the last constituent.  The test
  \<^verbatim>\<open>extends (t: T) => W\<close> then asks for a signature \<^verbatim>\<open>(t: m) => m\<close> whose result \<open>m\<close> extends \<open>W\<close>
  and whose parameter type is related to \<open>T\<close>: under \<^verbatim>\<open>strictFunctionTypes\<close> (the parameter
  \<open>sfn\<close>) all of \<open>T\<close> has to extend \<open>m\<close>, otherwise it is enough that \<open>m\<close> extends \<open>T\<close>.  For
  \<^verbatim>\<open>never\<close> the intersection is \<^verbatim>\<open>unknown\<close>, which is not a function type.
\<close>

lemma members_atomic: "m \<in> set (members T) \<Longrightarrow> members m = [m] \<and> flat m = [m]"
  by (induction T rule: members.induct) auto

lemma concat_map_single: "\<forall>x \<in> set xs. f x = [x] \<Longrightarrow> concat (map f xs) = xs"
  by (induction xs) auto

lemma members_norm_union:
  "members (norm_union ts) = concat (map members (absorb (concat (map flat ts))))"
proof -
  let ?l = "absorb (concat (map flat ts))"
  show ?thesis
  proof (cases ?l)
    case Nil
    then show ?thesis by (simp add: norm_union_def)
  next
    case (Cons x xs)
    then show ?thesis by (cases xs) (simp_all add: norm_union_def)
  qed
qed

lemma length_absorb: "length (absorb ms) \<le> length ms"
proof -
  have "length (absorb ms) \<le> length (filter (\<lambda>m. \<not> list_ex (sub_lit m) ms) ms)"
    by (simp add: absorb_def) (metis length_remdups_leq length_rev)
  also have "\<dots> \<le> length ms"
    by (rule length_filter_le)
  finally show ?thesis .
qed

lemma set_absorb_subset: "set (absorb ms) \<subseteq> set ms"
  by (auto simp: absorb_def)

lemma constituents_atomic: "m \<in> set (constituents T) \<Longrightarrow> members m = [m] \<and> flat m = [m]"
  using set_absorb_subset [of "members T"] members_atomic [of m T]
  by (auto simp: constituents_def)

lemma constituents_Exclude:
  "constituents (Exclude T W) = absorb (absorb (filter (\<lambda>m. \<not> ext m W) (constituents T)))"
proof -
  have 1: "concat (map flat (map (\<lambda>m. if ext m W then TNever else m) ms)) =
           filter (\<lambda>m. \<not> ext m W) ms" if "\<forall>m \<in> set ms. flat m = [m]" for ms
    using that by (induction ms) auto
  have "\<forall>x \<in> set (absorb (filter (\<lambda>m. \<not> ext m W) (constituents T))). members x = [x]"
    using set_absorb_subset [of "filter (\<lambda>m. \<not> ext m W) (constituents T)"]
      constituents_atomic [of _ T] by auto
  then have 2: "concat (map members (absorb (filter (\<lambda>m. \<not> ext m W) (constituents T)))) =
                absorb (filter (\<lambda>m. \<not> ext m W) (constituents T))"
    by (rule concat_map_single)
  have "\<forall>m \<in> set (constituents T). flat m = [m]"
    using constituents_atomic [of _ T] by blast
  from 1 [OF this] 2 show ?thesis
    by (simp add: Exclude_def constituents_def [of "norm_union _"] members_norm_union)
qed

lemma length_Exclude:
  assumes "W \<in> set (constituents T)"
  shows "length (constituents (Exclude T W)) < length (constituents T)"
proof -
  have "length (constituents (Exclude T W)) \<le> length (filter (\<lambda>m. \<not> ext m W) (constituents T))"
    unfolding constituents_Exclude
    using length_absorb [of "absorb (filter (\<lambda>m. \<not> ext m W) (constituents T))"]
      length_absorb [of "filter (\<lambda>m. \<not> ext m W) (constituents T)"] by simp
  also have "\<dots> < length (constituents T)"
    using assms by (intro length_filter_less [of W]) (simp_all add: ext_def)
  finally show ?thesis .
qed

function UnionToTuple_elems :: "bool \<Rightarrow> ty \<Rightarrow> ty list" where
  "UnionToTuple_elems sfn T =
     (case rev (constituents T) of
        [] \<Rightarrow> []
      | W # rest \<Rightarrow>
          if list_ex (\<lambda>m. ext m W \<and>
                 (list_all (\<lambda>x. ext x m) (constituents T) \<or>
                  \<not> sfn \<and> list_ex (\<lambda>x. ext m x) (constituents T)))
               (constituents T)
          then UnionToTuple_elems sfn (Exclude T W) @ [W]
          else [])"
  by pat_completeness auto
termination
proof (relation "measure (\<lambda>p. length (constituents (snd p)))")
  show "wf (measure (\<lambda>p. length (constituents (snd p))))" by simp
next
  fix sfn :: bool and T W :: ty and rest :: "ty list"
  assume "rev (constituents T) = W # rest"
  then have "W \<in> set (rev (constituents T))" by simp
  then have "W \<in> set (constituents T)" by simp
  then show "((sfn, Exclude T W), (sfn, T)) \<in> measure (\<lambda>p. length (constituents (snd p)))"
    by (simp add: length_Exclude)
qed

declare UnionToTuple_elems.simps [simp del]

definition UnionToTuple :: "bool \<Rightarrow> ty \<Rightarrow> ty" where
  "UnionToTuple sfn T = TTuple (UnionToTuple_elems sfn T)"

subsection \<open>Object literals with \<^verbatim>\<open>undefined\<close>\<close>

text \<open>
  An object literal in which a property may be written with the value \<^verbatim>\<open>undefined\<close>
  (\<open>None\<close>).  Under \<^verbatim>\<open>strictNullChecks\<close> that value has the type \<^verbatim>\<open>undefined\<close>, and an
  optional property \<^verbatim>\<open>p?: T\<close> has the type \<^verbatim>\<open>T | undefined\<close> unless
  \<^verbatim>\<open>exactOptionalPropertyTypes\<close> is on.  The sources do not fix that option; it is the
  parameter \<open>exact\<close>.
\<close>

type_synonym lit = "(string \<times> val option) list"

definition field_ok :: "bool \<Rightarrow> bool \<Rightarrow> ty \<Rightarrow> val option option \<Rightarrow> bool" where
  "field_ok exact opt t x =
     (case x of
        None \<Rightarrow> opt
      | Some None \<Rightarrow> opt \<and> \<not> exact \<or> reach (\<lambda>u. u = TUndefined) t
      | Some (Some y) \<Rightarrow> assignable t y)"

function assignable_u :: "bool \<Rightarrow> ty \<Rightarrow> lit \<Rightarrow> bool" where
  "assignable_u exact (TObj gs) fs = list_all (\<lambda>(n, opt, t). field_ok exact opt t (map_of fs n)) gs"
| "assignable_u exact (TRecord t) fs = list_all (\<lambda>(n, x). field_ok exact False t (Some x)) fs"
| "assignable_u exact (TUnion ts) fs = list_ex (\<lambda>t. assignable_u exact t fs) ts"
| "assignable_u exact (TInter a b) fs = (assignable_u exact a fs \<and> assignable_u exact b fs)"
| "assignable_u exact (TAlias a) fs = assignable_u exact (unfold a) fs"
| "assignable_u exact TUnknown fs = True"
| "assignable_u exact TNever fs = False"
| "assignable_u exact TUndefined fs = False"
| "assignable_u exact TNull fs = False"
| "assignable_u exact TString fs = False"
| "assignable_u exact TNumber fs = False"
| "assignable_u exact TBigint fs = False"
| "assignable_u exact TBoolean fs = False"
| "assignable_u exact TRegExp fs = False"
| "assignable_u exact (TStrLit s) fs = False"
| "assignable_u exact (TBoolLit b) fs = False"
| "assignable_u exact (TArray t) fs = False"
| "assignable_u exact (TTuple ts) fs = False"
  by pat_completeness auto
termination
  by (relation "measure (\<lambda>p. weight (fst (snd p)))") (auto simp: weight_unfold weight_member)

definition excess_u :: "ty \<Rightarrow> lit \<Rightarrow> bool" where
  "excess_u T fs =
     (case T of
        TObj gs \<Rightarrow>
          list_all (\<lambda>(n, x). case map_of gs n of
                       None \<Rightarrow> False
                     | Some (opt, t) \<Rightarrow> (case x of None \<Rightarrow> True | Some y \<Rightarrow> excess_ok t y)) fs
      | TRecord t \<Rightarrow> list_all (\<lambda>(n, x). case x of None \<Rightarrow> True | Some y \<Rightarrow> excess_ok t y) fs
      | _ \<Rightarrow> list_all (\<lambda>(n, x). known T n) fs)"

definition accepts_u :: "bool \<Rightarrow> ty \<Rightarrow> lit \<Rightarrow> bool" where
  "accepts_u exact T fs = (assignable_u exact T fs \<and> excess_u T fs)"

text \<open>A literal without \<^verbatim>\<open>undefined\<close>, as a literal of this kind.\<close>

definition defined :: "(string \<times> val) list \<Rightarrow> lit" where
  "defined fs = map (\<lambda>(n, x). (n, Some x)) fs"

subsection \<open>Notions used in the proofs\<close>

text \<open>Object types and string literals: types that a union keeps as they are.\<close>

definition plain :: "ty \<Rightarrow> bool" where
  "plain t = ((\<exists>fs. t = TObj fs) \<or> (\<exists>s. t = TStrLit s) \<or> (\<exists>a b. t = TInter a b))"

text \<open>The names of an object type as a union of literals.\<close>

definition key_names :: "(string \<times> bool \<times> ty) list \<Rightarrow> ty" where
  "key_names fs = norm_union (map (\<lambda>g. TStrLit (fst g)) fs)"

text \<open>
  The branch of a shape in \<^verbatim>\<open>XOR\<close> of object types: the element of the mapped type at that
  shape.
\<close>

definition branch :: "(string \<times> bool \<times> ty) list list \<Rightarrow> (string \<times> bool \<times> ty) list \<Rightarrow> ty" where
  "branch fss fs = (case XOR_elem (TTuple (map TObj fss)) (TObj fs) of Some b \<Rightarrow> b | None \<Rightarrow> TNever)"

section \<open>Properties\<close>

lemmas tag_defs = ScalarDataType_def StringDataType_def NumericDataType_def IntegerDataType_def
  RealDataType_def TemporalDataType_def BoolDataType_def BigintDataType_def DataType_def

lemmas cond_defs = DataTypeOf_def DataTypeOf1_def LangTypeOf_def LangTypeOf1_def union_of_def

subsection \<open>Property definitions by tag\<close>

text \<open>
  C5.  A definition tagged \<^verbatim>\<open>"str"\<close> may carry \<^verbatim>\<open>minlen\<close>, \<^verbatim>\<open>maxlen\<close>, \<^verbatim>\<open>regex\<close> and
  \<^verbatim>\<open>choices\<close>; one that carries \<^verbatim>\<open>precision\<close>, or any other attribute that is not among
  the common ones and these four, is rejected.  A definition tagged \<^verbatim>\<open>"dec"\<close> may give
  \<^verbatim>\<open>precision\<close> as one number or as a pair of numbers.
\<close>

theorem StringPropDef_attributes:
  "accepts StringPropDef
     (VObj [(''dt'', VStr ''str''), (''minlen'', VNum a), (''maxlen'', VNum b),
            (''regex'', VRegExp), (''choices'', VArr (map VStr cs))]) \<and>
   \<not> accepts StringPropDef (VObj [(''dt'', VStr ''str''), (''precision'', x)]) \<and>
   (n \<in> fst ` set fs \<and>
    n \<notin> set [''dt'', ''required'', ''unique'', ''minlen'', ''maxlen'', ''regex'', ''choices'']
      \<longrightarrow> \<not> accepts StringPropDef (VObj fs)) \<and>
   accepts DecimalPropDef (VObj [(''dt'', VStr ''dec''), (''precision'', VNum p)]) \<and>
   accepts DecimalPropDef (VObj [(''dt'', VStr ''dec''), (''precision'', VArr [VNum p, VNum q])])"
proof -
  have 1: "accepts StringPropDef
     (VObj [(''dt'', VStr ''str''), (''minlen'', VNum a), (''maxlen'', VNum b),
            (''regex'', VRegExp), (''choices'', VArr (map VStr cs))])"
    by (simp add: accepts_def StringPropDef_def CommonPropDef_def tag_defs list_all_iff)
  have 2: "\<not> accepts StringPropDef (VObj [(''dt'', VStr ''str''), (''precision'', x)])"
    by (simp add: accepts_def StringPropDef_def CommonPropDef_def)
  have 3: "n \<in> fst ` set fs \<and>
    n \<notin> set [''dt'', ''required'', ''unique'', ''minlen'', ''maxlen'', ''regex'', ''choices'']
      \<longrightarrow> \<not> accepts StringPropDef (VObj fs)"
    by (auto simp: accepts_def StringPropDef_def CommonPropDef_def list_all_iff)
  have 4: "accepts DecimalPropDef (VObj [(''dt'', VStr ''dec''), (''precision'', VNum p)])"
    by (simp add: accepts_def DecimalPropDef_def CommonPropDef_def tag_defs)
  have 5: "accepts DecimalPropDef
     (VObj [(''dt'', VStr ''dec''), (''precision'', VArr [VNum p, VNum q])])"
    by (simp add: accepts_def DecimalPropDef_def CommonPropDef_def tag_defs)
  from 1 2 3 4 5 show ?thesis by blast
qed

theorem StringPropDef_attributes_witness:
  "''size'' \<in> fst ` set [(''dt'', VStr ''str''), (''size'', VNum 4)] \<and>
   ''size'' \<notin> set [''dt'', ''required'', ''unique'', ''minlen'', ''maxlen'', ''regex'', ''choices''] \<and>
   \<not> accepts StringPropDef (VObj [(''dt'', VStr ''str''), (''size'', VNum 4)]) \<and>
   accepts StringPropDef (VObj [(''dt'', VStr ''str''), (''minlen'', VNum 8), (''maxlen'', VNum 8),
     (''regex'', VRegExp), (''choices'', VArr (map VStr [''a'', ''b'']))])"
  using StringPropDef_attributes [where n = "''size''" and a = 8 and b = 8 and cs = "[''a'', ''b'']"
      and fs = "[(''dt'', VStr ''str''), (''size'', VNum 4)]"]
  by simp

text \<open>
  C6.  The bounds \<^verbatim>\<open>min\<close> and \<^verbatim>\<open>max\<close> of an accepted \<^verbatim>\<open>"int"\<close> or \<^verbatim>\<open>"real"\<close> definition are
  numbers, those of an accepted \<^verbatim>\<open>"bigint"\<close> definition are bigints; a number as the bound
  of a \<^verbatim>\<open>"bigint"\<close> definition, or a bigint as the bound of an \<^verbatim>\<open>"int"\<close> or \<^verbatim>\<open>"real"\<close>
  definition, is rejected.
\<close>

theorem numeric_bounds:
  "(accepts IntPropDef (VObj fs) \<and> k \<in> {''min'', ''max''} \<and> map_of fs k = Some x
      \<longrightarrow> (\<exists>i. x = VNum i)) \<and>
   (accepts RealPropDef (VObj fs) \<and> k \<in> {''min'', ''max''} \<and> map_of fs k = Some x
      \<longrightarrow> (\<exists>i. x = VNum i)) \<and>
   (accepts BigIntPropDef (VObj fs) \<and> k \<in> {''min'', ''max''} \<and> map_of fs k = Some x
      \<longrightarrow> (\<exists>i. x = VBig i)) \<and>
   \<not> accepts BigIntPropDef (VObj [(''dt'', VStr ''bigint''), (''min'', VNum i)]) \<and>
   \<not> accepts BigIntPropDef (VObj [(''dt'', VStr ''bigint''), (''max'', VNum i)]) \<and>
   \<not> accepts IntPropDef (VObj [(''dt'', VStr ''int''), (''min'', VBig i)]) \<and>
   \<not> accepts RealPropDef (VObj [(''dt'', VStr ''real''), (''max'', VBig i)]) \<and>
   accepts IntPropDef (VObj [(''dt'', VStr ''int''), (''min'', VNum i), (''max'', VNum j)]) \<and>
   accepts RealPropDef (VObj [(''dt'', VStr ''real''), (''min'', VNum i), (''max'', VNum j)]) \<and>
   accepts BigIntPropDef (VObj [(''dt'', VStr ''bigint''), (''min'', VBig i), (''max'', VBig j)])"
proof -
  have 1: "accepts IntPropDef (VObj fs) \<and> k \<in> {''min'', ''max''} \<and> map_of fs k = Some x
      \<longrightarrow> (\<exists>i. x = VNum i)"
    by (auto simp: accepts_def IntPropDef_def split: val.splits)
  have 2: "accepts RealPropDef (VObj fs) \<and> k \<in> {''min'', ''max''} \<and> map_of fs k = Some x
      \<longrightarrow> (\<exists>i. x = VNum i)"
    by (auto simp: accepts_def RealPropDef_def split: val.splits)
  have 3: "accepts BigIntPropDef (VObj fs) \<and> k \<in> {''min'', ''max''} \<and> map_of fs k = Some x
      \<longrightarrow> (\<exists>i. x = VBig i)"
    by (auto simp: accepts_def BigIntPropDef_def split: val.splits)
  have 4: "\<not> accepts BigIntPropDef (VObj [(''dt'', VStr ''bigint''), (''min'', VNum i)])"
    "\<not> accepts BigIntPropDef (VObj [(''dt'', VStr ''bigint''), (''max'', VNum i)])"
    by (simp_all add: accepts_def BigIntPropDef_def)
  have 5: "\<not> accepts IntPropDef (VObj [(''dt'', VStr ''int''), (''min'', VBig i)])"
    "\<not> accepts RealPropDef (VObj [(''dt'', VStr ''real''), (''max'', VBig i)])"
    by (simp_all add: accepts_def IntPropDef_def RealPropDef_def)
  have 6: "accepts IntPropDef (VObj [(''dt'', VStr ''int''), (''min'', VNum i), (''max'', VNum j)])"
    "accepts RealPropDef (VObj [(''dt'', VStr ''real''), (''min'', VNum i), (''max'', VNum j)])"
    "accepts BigIntPropDef (VObj [(''dt'', VStr ''bigint''), (''min'', VBig i), (''max'', VBig j)])"
    by (simp_all add: accepts_def IntPropDef_def RealPropDef_def BigIntPropDef_def
        CommonPropDef_def tag_defs)
  from 1 2 3 4 5 6 show ?thesis by blast
qed

theorem numeric_bounds_witness:
  "accepts BigIntPropDef (VObj [(''dt'', VStr ''bigint''), (''min'', VBig 0), (''max'', VBig 9)]) \<and>
   ''max'' \<in> {''min'', ''max''} \<and>
   map_of [(''dt'', VStr ''bigint''), (''min'', VBig 0), (''max'', VBig 9)] ''max'' = Some (VBig 9) \<and>
   (\<exists>i. VBig 9 = VBig i) \<and>
   accepts IntPropDef (VObj [(''dt'', VStr ''int''), (''min'', VNum 0), (''max'', VNum 9)]) \<and>
   map_of [(''dt'', VStr ''int''), (''min'', VNum 0), (''max'', VNum 9)] ''min'' = Some (VNum 0) \<and>
   \<not> accepts BigIntPropDef (VObj [(''dt'', VStr ''bigint''), (''min'', VNum 0)])"
  using numeric_bounds [where i = 0 and j = 9 and k = "''max''" and x = "VBig 9"
      and fs = "[(''dt'', VStr ''bigint''), (''min'', VBig 0), (''max'', VBig 9)]"]
  by simp

subsection \<open>Tags and host types\<close>

text \<open>
  C7.  \<^verbatim>\<open>DataTypeOf<number>\<close> is exactly \<^verbatim>\<open>"int" | "real" | "dec" | "year"\<close>; and for each
  host type that represents tags (\<^verbatim>\<open>string\<close>, \<^verbatim>\<open>number\<close>, \<^verbatim>\<open>bigint\<close>, \<^verbatim>\<open>boolean\<close>,
  \<^verbatim>\<open>LangType[]\<close>, \<^verbatim>\<open>Record<string,LangType>\<close>) \<^verbatim>\<open>DataTypeOf\<close> returns the union of exactly
  the tags that \<^verbatim>\<open>LangTypeOf\<close> represents by that host type.
\<close>

theorem DataTypeOf_ambiguous:
  "DataTypeOf TNumber =
     TUnion [TStrLit ''int'', TStrLit ''real'', TStrLit ''dec'', TStrLit ''year''] \<and>
   (\<forall>H \<in> set [TString, TNumber, TBigint, TBoolean,
               TArray (TAlias LangType), TRecord (TAlias LangType)].
      set (flat (DataTypeOf H)) = set (filter (\<lambda>dt. LangTypeOf dt = H) (flat DataType)))"
  by (simp add: tag_defs cond_defs insert_commute)

theorem DataTypeOf_ambiguous_witness:
  "TBigint \<in> set [TString, TNumber, TBigint, TBoolean,
                  TArray (TAlias LangType), TRecord (TAlias LangType)] \<and>
   set (flat (DataTypeOf TBigint)) = {TStrLit ''bigint'', TStrLit ''bit''} \<and>
   set (filter (\<lambda>dt. LangTypeOf dt = TBigint) (flat DataType)) =
     {TStrLit ''bigint'', TStrLit ''bit''}"
  using DataTypeOf_ambiguous by (simp add: tag_defs cond_defs)

text \<open>
  C10.  Every scalar tag is a member of \<^verbatim>\<open>DataTypeOf<LangTypeOf<DT>>\<close>: going from a tag
  to its host type and back gives a union that contains the tag.
\<close>

theorem tag_roundtrip:
  "\<forall>dt \<in> set (flat ScalarDataType). dt \<in> set (flat (DataTypeOf (LangTypeOf dt)))"
  by (simp add: tag_defs cond_defs)

theorem tag_roundtrip_witness:
  "TStrLit ''bit'' \<in> set (flat ScalarDataType) \<and>
   LangTypeOf (TStrLit ''bit'') = TBigint \<and>
   TStrLit ''bit'' \<in> set (flat (DataTypeOf (LangTypeOf (TStrLit ''bit''))))"
  using tag_roundtrip by (simp add: tag_defs cond_defs)


subsection \<open>Key participants\<close>

lemma KeyProp_cases:
  "assignable KeyPropDataType v \<longleftrightarrow>
     (\<exists>s. v = VStr s \<and> TStrLit s \<in> set (flat ScalarDataType)) \<or>
     (\<exists>fs. v = VObj fs) \<and> assignable (TAlias ClassDef) v"
  by (cases v) (auto simp: KeyPropDataType_def tag_defs)

text \<open>
  C8.  A value of \<^verbatim>\<open>KeyPropDataType\<close> is the tag of a scalar data type or an object that is
  a \<^verbatim>\<open>ClassDef\<close>; the members of the union are the scalar tags and \<^verbatim>\<open>ClassDef\<close>, and the
  tags \<^verbatim>\<open>"obj"\<close>, \<^verbatim>\<open>"arr"\<close> and \<^verbatim>\<open>"multilink"\<close> are not among them.  An array, and an object
  without a string \<^verbatim>\<open>name\<close>, is not a value of it, and a \<^verbatim>\<open>KeyDataType\<close> literal with such a
  property is rejected.
\<close>

theorem key_participants:
  "(assignable KeyPropDataType v \<longrightarrow>
      (\<exists>s. v = VStr s \<and> TStrLit s \<in> set (flat ScalarDataType)) \<or>
      (\<exists>fs. v = VObj fs) \<and> assignable (TAlias ClassDef) v) \<and>
   flat KeyPropDataType = flat ScalarDataType @ [TAlias ClassDef] \<and>
   TStrLit ''obj'' \<notin> set (flat KeyPropDataType) \<and>
   TStrLit ''arr'' \<notin> set (flat KeyPropDataType) \<and>
   TStrLit ''multilink'' \<notin> set (flat KeyPropDataType) \<and>
   \<not> assignable KeyPropDataType (VArr xs) \<and>
   ((\<forall>s. map_of gs ''name'' \<noteq> Some (VStr s)) \<longrightarrow> \<not> assignable KeyPropDataType (VObj gs)) \<and>
   ((n, x) \<in> set fs \<and>
    (x \<in> {VStr ''obj'', VStr ''arr'', VStr ''multilink''} \<or> (\<exists>ys. x = VArr ys) \<or>
     (\<exists>hs. x = VObj hs \<and> (\<forall>s. map_of hs ''name'' \<noteq> Some (VStr s))))
      \<longrightarrow> \<not> accepts KeyDataType (VObj fs))"
proof -
  have 1: "assignable KeyPropDataType v \<longrightarrow>
      (\<exists>s. v = VStr s \<and> TStrLit s \<in> set (flat ScalarDataType)) \<or>
      (\<exists>fs. v = VObj fs) \<and> assignable (TAlias ClassDef) v"
    by (simp add: KeyProp_cases)
  have 2: "flat KeyPropDataType = flat ScalarDataType @ [TAlias ClassDef]"
    by (simp add: KeyPropDataType_def tag_defs)
  have 3: "TStrLit ''obj'' \<notin> set (flat KeyPropDataType)"
    "TStrLit ''arr'' \<notin> set (flat KeyPropDataType)"
    "TStrLit ''multilink'' \<notin> set (flat KeyPropDataType)"
    by (simp_all add: KeyPropDataType_def tag_defs)
  have 4: "\<not> assignable KeyPropDataType (VArr xs)" for xs
    by (simp add: KeyPropDataType_def tag_defs)
  have 5: "(\<forall>s. map_of gs ''name'' \<noteq> Some (VStr s)) \<longrightarrow> \<not> assignable KeyPropDataType (VObj gs)"
    for gs
    by (auto simp: KeyPropDataType_def tag_defs split: option.splits val.splits)
  have 6: "\<not> assignable KeyPropDataType x"
    if "x \<in> {VStr ''obj'', VStr ''arr'', VStr ''multilink''} \<or> (\<exists>ys. x = VArr ys) \<or>
     (\<exists>hs. x = VObj hs \<and> (\<forall>s. map_of hs ''name'' \<noteq> Some (VStr s)))"
    using that 4 5 by (auto simp: KeyPropDataType_def tag_defs)
  have 7: "(n, x) \<in> set fs \<and>
    (x \<in> {VStr ''obj'', VStr ''arr'', VStr ''multilink''} \<or> (\<exists>ys. x = VArr ys) \<or>
     (\<exists>hs. x = VObj hs \<and> (\<forall>s. map_of hs ''name'' \<noteq> Some (VStr s))))
      \<longrightarrow> \<not> accepts KeyDataType (VObj fs)"
    using 6 by (auto simp: accepts_def KeyDataType_def list_all_iff)
  from 1 2 3 4 5 7 show ?thesis by blast
qed

theorem key_participants_witness:
  "assignable KeyPropDataType (VObj [(''name'', VStr ''Order''), (''key'', VObj [(''id'', VStr ''int'')])]) \<and>
   assignable (TAlias ClassDef) (VObj [(''name'', VStr ''Order''), (''key'', VObj [(''id'', VStr ''int'')])]) \<and>
   accepts KeyDataType (VObj [(''id'', VStr ''int'')]) \<and>
   (''items'', VStr ''multilink'') \<in> set [(''id'', VStr ''int''), (''items'', VStr ''multilink'')] \<and>
   \<not> accepts KeyDataType (VObj [(''id'', VStr ''int''), (''items'', VStr ''multilink'')]) \<and>
   \<not> assignable KeyPropDataType (VObj [(''props'', VObj [])])"
  using key_participants [where v = "VObj [(''name'', VStr ''Order''), (''key'', VObj [(''id'', VStr ''int'')])]"
      and n = "''items''" and x = "VStr ''multilink''"
      and fs = "[(''id'', VStr ''int''), (''items'', VStr ''multilink'')]"
      and gs = "[(''props'', VObj [])]"]
  by (simp add: accepts_def KeyDataType_def KeyPropDataType_def tag_defs)



section \<open>Properties of the utility types\<close>

subsection \<open>Unions in normal form\<close>

lemma set_absorb: "set (absorb ms) = {m \<in> set ms. \<forall>b \<in> set ms. \<not> sub_lit m b}"
  by (auto simp: absorb_def list_ex_iff)

lemma distinct_absorb: "distinct (absorb ms)"
  by (simp add: absorb_def)

lemma flat_flat: "x \<in> set (flat t) \<Longrightarrow> flat x = [x]"
  by (induction t rule: flat.induct) auto

lemma flat_norm_union: "flat (norm_union ts) = absorb (concat (map flat ts))"
proof -
  let ?l = "absorb (concat (map flat ts))"
  have a: "\<forall>x \<in> set ?l. flat x = [x]"
    by (auto simp: set_absorb dest: flat_flat)
  show ?thesis
  proof (cases ?l)
    case Nil
    then show ?thesis by (simp add: norm_union_def)
  next
    case (Cons x xs)
    note outer = Cons
    show ?thesis
    proof (cases xs)
      case Nil
      with outer a show ?thesis by (simp add: norm_union_def)
    next
      case (Cons y ys)
      with outer have "flat (norm_union ts) = concat (map flat ?l)"
        by (simp add: norm_union_def)
      with a show ?thesis by (simp add: concat_map_single)
    qed
  qed
qed

lemma plain_simps [simp]:
  "plain t \<Longrightarrow> flat t = [t]" "plain t \<Longrightarrow> members t = [t]" "plain t \<Longrightarrow> plain b \<Longrightarrow> \<not> sub_lit t b"
  by (auto simp: plain_def)

lemma absorb_plain: "\<forall>t \<in> set ts. plain t \<Longrightarrow> set (absorb ts) = set ts"
  by (auto simp: set_absorb)

lemma constituents_norm_union:
  assumes "\<forall>t \<in> set ts. \<forall>x \<in> set (flat t). plain x"
  shows "set (constituents (norm_union ts)) = (\<Union>t \<in> set ts. set (flat t))"
proof -
  let ?c = "concat (map flat ts)"
  from assms have p: "\<forall>x \<in> set ?c. plain x" by auto
  then have 1: "set (absorb ?c) = set ?c" by (rule absorb_plain)
  with p have p2: "\<forall>x \<in> set (absorb ?c). plain x" by simp
  then have "concat (map members (absorb ?c)) = absorb ?c"
    by (intro concat_map_single) simp
  then have "constituents (norm_union ts) = absorb (absorb ?c)"
    by (simp add: constituents_def members_norm_union)
  with p2 1 show ?thesis by (simp add: absorb_plain)
qed

lemma reach_norm_union:
  assumes "\<forall>t \<in> set ts. \<forall>x \<in> set (flat t). plain x \<and> reach P x = P x" and "\<not> P TNever"
  shows "reach P (norm_union ts) = (\<exists>t \<in> set ts. \<exists>x \<in> set (flat t). P x)"
proof -
  let ?c = "concat (map flat ts)"
  let ?l = "absorb ?c"
  from assms(1) have p: "\<forall>x \<in> set ?c. plain x" by auto
  then have s: "set ?l = set ?c" by (rule absorb_plain)
  have r: "\<forall>x \<in> set ?l. reach P x = P x"
    using assms(1) s by auto
  have "reach P (norm_union ts) = (\<exists>x \<in> set ?l. P x)"
  proof (cases ?l)
    case Nil
    then show ?thesis
      using assms(2) by (simp add: norm_union_def)
  next
    case (Cons x xs)
    then show ?thesis using r by (cases xs) (auto simp: norm_union_def list_ex_iff)
  qed
  with s show ?thesis by auto
qed


lemma norm_union_plain:
  assumes "\<forall>b \<in> set bs. plain b"
  shows "bs = [] \<and> norm_union bs = TNever \<or> set bs = {norm_union bs} \<or>
         (\<exists>us. norm_union bs = TUnion us \<and> set us = set bs)"
proof -
  from assms have c: "concat (map flat bs) = bs"
    by (intro concat_map_single) simp
  from assms have s: "set (absorb bs) = set bs" by (rule absorb_plain)
  show ?thesis
  proof (cases "absorb bs")
    case Nil
    with s show ?thesis by (simp add: norm_union_def c)
  next
    case (Cons x xs)
    with s show ?thesis by (cases xs) (auto simp: norm_union_def c)
  qed
qed

lemma those_map_Some: "\<forall>x \<in> set xs. f x = Some (g x) \<Longrightarrow> those (map f xs) = Some (map g xs)"
  by (induction xs) auto

lemma absorb_distinct_plain:
  assumes "distinct ms" and "\<forall>m \<in> set ms. \<forall>b \<in> set ms. \<not> sub_lit m b"
  shows "absorb ms = ms"
proof -
  from assms(2) have "filter (\<lambda>m. \<not> list_ex (sub_lit m) ms) ms = ms"
    by (auto simp: list_ex_iff filter_id_conv)
  moreover from assms(1) have "rev (remdups (rev ms)) = ms"
    by (simp add: distinct_remdups_id)
  ultimately show ?thesis by (simp add: absorb_def)
qed

subsection \<open>\<^verbatim>\<open>XOR\<close> of object types\<close>

lemma flat_key_names: "set (flat (key_names fs)) = TStrLit ` fst ` set fs"
proof -
  have "\<forall>t \<in> set (map (\<lambda>g. TStrLit (fst g)) fs). plain t" by (auto simp: plain_def)
  then have "concat (map flat (map (\<lambda>g. TStrLit (fst g)) fs)) = map (\<lambda>g. TStrLit (fst g)) fs"
    by (intro concat_map_single) simp
  then show ?thesis
    unfolding key_names_def flat_norm_union
    by (subst absorb_plain) (auto simp: plain_def)
qed

lemma plain_key_names: "x \<in> set (flat (key_names fs)) \<Longrightarrow> plain x"
  by (auto simp: flat_key_names plain_def)

lemma ext_key_names: "ext (TStrLit k) (key_names fs) \<longleftrightarrow> k \<in> fst ` set fs"
proof -
  let ?P = "\<lambda>t. t = TStrLit k \<or> t = TString"
  have "reach ?P (key_names fs) = (\<exists>t \<in> set (map (\<lambda>g. TStrLit (fst g)) fs). \<exists>x \<in> set (flat t). ?P x)"
    unfolding key_names_def by (rule reach_norm_union) (auto simp: plain_def)
  then have e: "extends (TStrLit k) (key_names fs) \<longleftrightarrow> k \<in> fst ` set fs"
    by auto
  have "k \<in> fst ` set fs" if "TStrLit k = key_names fs"
  proof -
    have "TStrLit k \<in> set (flat (TStrLit k))" by simp
    with that have "TStrLit k \<in> set (flat (key_names fs))" by simp
    then show ?thesis by (auto simp: flat_key_names)
  qed
  with e show ?thesis by (auto simp: ext_def)
qed


lemma constituents_objs: "set (constituents (norm_union (map TObj fss))) = TObj ` set fss"
proof -
  have "set (constituents (norm_union (map TObj fss))) = (\<Union>t \<in> set (map TObj fss). set (flat t))"
    by (rule constituents_norm_union) (auto simp: plain_def)
  then show ?thesis by auto
qed

lemma UnionKeys_objs:
  "\<exists>U. UnionKeys (norm_union (map TObj fss)) = Some U \<and>
       set (constituents U) = TStrLit ` (\<Union>gs \<in> set fss. fst ` set gs)"
proof -
  let ?cs = "constituents (norm_union (map TObj fss))"
  let ?g = "\<lambda>m. case m of TObj gs \<Rightarrow> key_names gs | _ \<Rightarrow> TNever"
  have "\<forall>m \<in> set ?cs. (if ext m m then keyof m else Some TNever) = Some (?g m)"
    by (auto simp: constituents_objs ext_def key_names_def)
  then have t: "those (map (\<lambda>m. if ext m m then keyof m else Some TNever) ?cs) = Some (map ?g ?cs)"
    by (rule those_map_Some)
  have p: "\<forall>t \<in> set (map ?g ?cs). \<forall>x \<in> set (flat t). plain x"
    by (auto simp: constituents_objs dest: plain_key_names)
  have "set (constituents (norm_union (map ?g ?cs))) = (\<Union>t \<in> set (map ?g ?cs). set (flat t))"
    using p by (rule constituents_norm_union)
  also have "\<dots> = (\<Union>gs \<in> set fss. set (flat (key_names gs)))"
    by (auto simp: constituents_objs)
  also have "\<dots> = TStrLit ` (\<Union>gs \<in> set fss. fst ` set gs)"
    by (auto simp: flat_key_names)
  finally show ?thesis by (simp add: UnionKeys_def t)
qed

lemma lit_names_Exclude:
  assumes "set (constituents U) = TStrLit ` A"
  shows "\<exists>ns. lit_names (Exclude U (key_names fs)) = Some ns \<and> set ns = A - fst ` set fs"
proof -
  let ?h = "\<lambda>m. if ext m (key_names fs) then TNever else m"
  let ?E = "Exclude U (key_names fs)"
  have p: "\<forall>t \<in> set (map ?h (constituents U)). \<forall>x \<in> set (flat t). plain x"
    using assms by (auto simp: plain_def)
  have "set (constituents ?E) = (\<Union>t \<in> set (map ?h (constituents U)). set (flat t))"
    unfolding Exclude_def using p by (rule constituents_norm_union)
  also have "\<dots> = TStrLit ` (A - fst ` set fs)"
    using assms by (auto simp: ext_key_names)
  finally have c: "set (constituents ?E) = TStrLit ` (A - fst ` set fs)" .
  let ?u = "\<lambda>m. case m of TStrLit s \<Rightarrow> s | _ \<Rightarrow> []"
  have "\<forall>m \<in> set (constituents ?E). (case m of TStrLit s \<Rightarrow> Some s | _ \<Rightarrow> None) = Some (?u m)"
    using c by auto
  then have "lit_names ?E = Some (map ?u (constituents ?E))"
    unfolding lit_names_def by (rule those_map_Some)
  moreover have "set (map ?u (constituents ?E)) = A - fst ` set fs"
    using c by (auto simp: image_image) 
  ultimately show ?thesis by blast
qed


lemma XOR_elem_obj:
  "\<exists>ns. XOR_elem (TTuple (map TObj fss)) (TObj fs) =
          Some (TInter (TObj fs) (TObj (map (\<lambda>n. (n, True, TNever)) ns))) \<and>
        set ns = (\<Union>gs \<in> set fss. fst ` set gs) - fst ` set fs"
proof -
  from UnionKeys_objs [of fss] obtain U where
    U: "UnionKeys (norm_union (map TObj fss)) = Some U"
      "set (constituents U) = TStrLit ` (\<Union>gs \<in> set fss. fst ` set gs)"
    by blast
  from lit_names_Exclude [OF U(2), of fs] obtain ns where
    ns: "lit_names (Exclude U (key_names fs)) = Some ns"
      "set ns = (\<Union>gs \<in> set fss. fst ` set gs) - fst ` set fs"
    by blast
  have "XOR_elem (TTuple (map TObj fss)) (TObj fs) =
          Some (TInter (TObj fs) (TObj (map (\<lambda>n. (n, True, TNever)) ns)))"
    using U(1) ns(1) by (simp add: XOR_elem_def Record_def key_names_def o_def)
  with ns(2) show ?thesis by blast
qed

lemma branch_obj:
  "\<exists>ns. branch fss fs = TInter (TObj fs) (TObj (map (\<lambda>n. (n, True, TNever)) ns)) \<and>
        set ns = (\<Union>gs \<in> set fss. fst ` set gs) - fst ` set fs"
  using XOR_elem_obj [of fss fs] by (auto simp: branch_def)

lemma XOR_objs: "XOR (TTuple (map TObj fss)) = Some (norm_union (map (branch fss) fss))"
proof -
  have "XOR_elem (TTuple (map TObj fss)) (TObj fs) = Some (branch fss fs)" for fs
    using XOR_elem_obj [of fss fs] by (auto simp: branch_def)
  then have "\<forall>t \<in> set (map TObj fss).
      XOR_elem (TTuple (map TObj fss)) t = Some (case t of TObj fs \<Rightarrow> branch fss fs | _ \<Rightarrow> TNever)"
    by auto
  then have "those (map (XOR_elem (TTuple (map TObj fss))) (map TObj fss)) =
      Some (map (\<lambda>t. case t of TObj fs \<Rightarrow> branch fss fs | _ \<Rightarrow> TNever) (map TObj fss))"
    by (rule those_map_Some)
  then show ?thesis by (simp add: XOR_def o_def)
qed

lemma plain_branch: "plain (branch fss fs)"
  using branch_obj [of fss fs] by (auto simp: plain_def)

lemma norm_union_cases:
  assumes "\<forall>b \<in> set bs. plain b"
    and "\<not> P TNever"
    and "\<And>us. P (TUnion us) \<longleftrightarrow> (\<exists>u \<in> set us. P u)"
  shows "P (norm_union bs) \<longleftrightarrow> (\<exists>b \<in> set bs. P b)"
proof -
  from norm_union_plain [OF assms(1)] consider
    (empty) "bs = []" "norm_union bs = TNever"
    | (one) "set bs = {norm_union bs}"
    | (more) us where "norm_union bs = TUnion us" "set us = set bs"
    by blast
  then show ?thesis
  proof cases
    case empty
    with assms(2) show ?thesis by simp
  next
    case one
    have "(\<exists>b \<in> set bs. P b) \<longleftrightarrow> (\<exists>b \<in> {norm_union bs}. P b)"
      using one by simp
    then show ?thesis by simp
  next
    case more
    with assms(3) show ?thesis by simp
  qed
qed

lemma assignable_branches:
  "assignable (norm_union (map (branch fss) fss)) v \<longleftrightarrow> (\<exists>fs \<in> set fss. assignable (branch fss fs) v)"
proof -
  have "assignable (norm_union (map (branch fss) fss)) v \<longleftrightarrow>
      (\<exists>b \<in> set (map (branch fss) fss). assignable b v)"
    by (rule norm_union_cases [where P = "\<lambda>t. assignable t v"])
      (auto simp: plain_branch list_ex_iff)
  then show ?thesis by simp
qed

lemma assignable_u_branches:
  "assignable_u e (norm_union (map (branch fss) fss)) us \<longleftrightarrow>
     (\<exists>fs \<in> set fss. assignable_u e (branch fss fs) us)"
proof -
  have "assignable_u e (norm_union (map (branch fss) fss)) us \<longleftrightarrow>
      (\<exists>b \<in> set (map (branch fss) fss). assignable_u e b us)"
    by (rule norm_union_cases [where P = "\<lambda>t. assignable_u e t us"])
      (auto simp: plain_branch list_ex_iff)
  then show ?thesis by simp
qed

lemma known_branches:
  "known (norm_union (map (branch fss) fss)) n \<longleftrightarrow> (\<exists>fs \<in> set fss. known (branch fss fs) n)"
proof -
  have "known (norm_union (map (branch fss) fss)) n \<longleftrightarrow>
      (\<exists>b \<in> set (map (branch fss) fss). known b n)"
    by (rule norm_union_cases [where P = "\<lambda>t. known t n"])
      (auto simp: plain_branch list_ex_iff)
  then show ?thesis by simp
qed

lemma known_branch: "known (branch fss fs) n \<longleftrightarrow> n \<in> (\<Union>gs \<in> set fss. fst ` set gs) \<union> fst ` set fs"
proof -
  from branch_obj [of fss fs] obtain ns where
    b: "branch fss fs = TInter (TObj fs) (TObj (map (\<lambda>n. (n, True, TNever)) ns))"
    and ns: "set ns = (\<Union>gs \<in> set fss. fst ` set gs) - fst ` set fs"
    by blast
  have "known (branch fss fs) n \<longleftrightarrow> n \<in> fst ` set fs \<or> n \<in> set ns"
    by (simp add: b o_def)
  with ns show ?thesis by blast
qed

lemma not_obj_branches:
  "(\<forall>gs. norm_union (map (branch fss) fss) \<noteq> TObj gs) \<and> (\<forall>t. norm_union (map (branch fss) fss) \<noteq> TRecord t)"
proof -
  have p: "\<forall>b \<in> set (map (branch fss) fss). plain b" by (simp add: plain_branch)
  from norm_union_plain [OF p] consider
    (empty) "norm_union (map (branch fss) fss) = TNever"
    | (one) "set (map (branch fss) fss) = {norm_union (map (branch fss) fss)}"
    | (more) us where "norm_union (map (branch fss) fss) = TUnion us"
    by blast
  then show ?thesis
  proof cases
    case one
    then obtain fs where "norm_union (map (branch fss) fss) = branch fss fs" by auto
    with branch_obj [of fss fs] show ?thesis by auto
  qed auto
qed

lemma no_pairs: "(\<forall>a b. (a, b) \<notin> set xs) = (xs = [])"
  by (cases xs) auto

lemma excess_ok_names:
  "(\<forall>gs. T \<noteq> TObj gs) \<and> (\<forall>t. T \<noteq> TRecord t) \<Longrightarrow>
     excess_ok T (VObj fs) \<longleftrightarrow> (\<forall>n \<in> fst ` set fs. known T n)"
  by (cases T) (simp_all add: list_all_iff split_beta no_pairs)

lemma excess_u_names:
  "(\<forall>gs. T \<noteq> TObj gs) \<and> (\<forall>t. T \<noteq> TRecord t) \<Longrightarrow>
     excess_u T us \<longleftrightarrow> (\<forall>n \<in> fst ` set us. known T n)"
  by (cases T) (simp_all add: excess_u_def list_all_iff split_beta no_pairs)

lemma excess_branches:
  "excess_ok (norm_union (map (branch fss) fss)) (VObj fs) \<longleftrightarrow>
     (\<forall>n \<in> fst ` set fs. known (norm_union (map (branch fss) fss)) n)"
  using not_obj_branches [of fss] by (rule excess_ok_names)

lemma excess_u_branches:
  "excess_u (norm_union (map (branch fss) fss)) us \<longleftrightarrow>
     (\<forall>n \<in> fst ` set us. known (norm_union (map (branch fss) fss)) n)"
  using not_obj_branches [of fss] by (rule excess_u_names)


lemma excess_names:
  "excess_ok (TObj fa) (VObj fs) \<Longrightarrow> n \<in> fst ` set fs \<Longrightarrow> n \<in> fst ` set fa"
proof -
  assume e: "excess_ok (TObj fa) (VObj fs)" and n: "n \<in> fst ` set fs"
  from n obtain x where "(n, x) \<in> set fs" by auto
  with e have "map_of fa n \<noteq> None"
    by (auto simp: list_all_iff split: option.splits)
  then show ?thesis by (simp add: map_of_eq_None_iff)
qed

lemma excess_u_names_obj:
  "excess_u (TObj fa) us \<Longrightarrow> n \<in> fst ` set us \<Longrightarrow> n \<in> fst ` set fa"
proof -
  assume e: "excess_u (TObj fa) us" and n: "n \<in> fst ` set us"
  from n obtain x where "(n, x) \<in> set us" by auto
  with e have "map_of fa n \<noteq> None"
    by (auto simp: excess_u_def list_all_iff split: option.splits)
  then show ?thesis by (simp add: map_of_eq_None_iff)
qed

lemma never_record_absent:
  assumes "\<forall>n \<in> set ns. n \<notin> fst ` set us"
  shows "assignable_u e (TObj (map (\<lambda>n. (n, True, TNever)) ns)) us"
proof -
  have "map_of us n = None" if "n \<in> set ns" for n
    using assms that by (simp add: map_of_eq_None_iff)
  then show ?thesis by (simp add: list_all_iff field_ok_def)
qed

lemma never_record_present:
  assumes "n \<in> set ns" and "map_of us n = Some x" and "x \<noteq> None \<or> e"
  shows "\<not> assignable_u e (TObj (map (\<lambda>n. (n, True, TNever)) ns)) us"
proof -
  from assms(2,3) have "\<not> field_ok e True TNever (map_of us n)"
    by (cases x) (auto simp: field_ok_def)
  with assms(1) show ?thesis by (auto simp: list_all_iff)
qed

lemma branch_accepts_own:
  assumes "accepts_u e (TObj fa) us"
  shows "assignable_u e (branch fss fa) us"
proof -
  from branch_obj [of fss fa] obtain ns where
    b: "branch fss fa = TInter (TObj fa) (TObj (map (\<lambda>n. (n, True, TNever)) ns))"
    and ns: "set ns = (\<Union>gs \<in> set fss. fst ` set gs) - fst ` set fa"
    by blast
  from assms have x: "excess_u (TObj fa) us" and a: "assignable_u e (TObj fa) us"
    by (simp_all add: accepts_u_def)
  have "\<forall>n \<in> set ns. n \<notin> fst ` set us"
    using excess_u_names_obj [OF x] ns by blast
  then have "assignable_u e (TObj (map (\<lambda>n. (n, True, TNever)) ns)) us"
    by (rule never_record_absent)
  with a show ?thesis by (simp only: b assignable_u.simps)
qed

lemma XOR_accepts_shape:
  assumes "fa \<in> set fss" and "accepts_u e (TObj fa) us"
  shows "accepts_u e (norm_union (map (branch fss) fss)) us"
proof -
  from assms have 1: "assignable_u e (norm_union (map (branch fss) fss)) us"
    using branch_accepts_own [OF assms(2), of fss] by (auto simp: assignable_u_branches)
  from assms(2) have x: "excess_u (TObj fa) us" by (simp add: accepts_u_def)
  have "known (branch fss fa) n" if "n \<in> fst ` set us" for n
    using excess_u_names_obj [OF x that] by (simp add: known_branch)
  with assms(1) have 2: "excess_u (norm_union (map (branch fss) fss)) us"
    by (auto simp: excess_u_branches known_branches)
  from 1 2 show ?thesis by (simp add: accepts_u_def)
qed

lemma branch_rejects_other:
  assumes "k \<in> fst ` set fb" "fb \<in> set fss" "k \<notin> fst ` set fa"
    and "map_of us k = Some x" "x \<noteq> None \<or> e"
  shows "\<not> assignable_u e (branch fss fa) us"
proof -
  from branch_obj [of fss fa] obtain ns where
    b: "branch fss fa = TInter (TObj fa) (TObj (map (\<lambda>n. (n, True, TNever)) ns))"
    and ns: "set ns = (\<Union>gs \<in> set fss. fst ` set gs) - fst ` set fa"
    by blast
  from assms(1-3) ns have "k \<in> set ns" by blast
  then have "\<not> assignable_u e (TObj (map (\<lambda>n. (n, True, TNever)) ns)) us"
    using assms(4,5) by (rule never_record_present)
  then show ?thesis by (simp only: b assignable_u.simps) simp
qed

lemma XOR_rejects_mixed:
  assumes "ka \<in> fst ` set fa" "ka \<notin> fst ` set fb" "kb \<in> fst ` set fb" "kb \<notin> fst ` set fa"
    and "map_of us ka = Some x" "x \<noteq> None \<or> e" "map_of us kb = Some y" "y \<noteq> None \<or> e"
  shows "\<not> assignable_u e (norm_union (map (branch [fa, fb]) [fa, fb])) us"
proof -
  have "\<not> assignable_u e (branch [fa, fb] fa) us"
    using assms(3) _ assms(4) assms(7,8) by (rule branch_rejects_other) simp
  moreover have "\<not> assignable_u e (branch [fa, fb] fb) us"
    using assms(1) _ assms(2) assms(5,6) by (rule branch_rejects_other) simp
  ultimately show ?thesis
    using assignable_u_branches [of e "[fa, fb]" us] by simp
qed


lemma map_of_defined: "map_of (defined fs) n = map_option Some (map_of fs n)"
  by (induction fs) (auto simp: defined_def)

lemma assignable_defined: "assignable_u exact T (defined fs) = assignable T (VObj fs)"
proof (induction exact T "defined fs" rule: assignable_u.induct)
  case (1 exact gs)
  show ?case
    by (auto simp: list_all_iff field_ok_def map_of_defined split: option.splits)
next
  case (2 exact t)
  show ?case by (auto simp: list_all_iff field_ok_def defined_def)
next
  case (3 exact ts)
  then show ?case by (auto simp: list_ex_iff)
qed auto

lemma excess_defined: "excess_u T (defined fs) = excess_ok T (VObj fs)"
proof -
  have e: "(fs = []) = (\<forall>a b. (a, b) \<notin> set fs)"
    by (cases fs) auto
  show ?thesis
    by (cases T)
      (simp_all add: excess_u_def defined_def list_all_iff split_beta e cong: option.case_cong)
qed

lemma accepts_defined: "accepts_u exact T (defined fs) = accepts T (VObj fs)"
  by (simp add: accepts_u_def accepts_def assignable_defined excess_defined)

lemma XOR_accepts_value:
  assumes "fa \<in> set fss" and "accepts (TObj fa) v"
  shows "accepts (norm_union (map (branch fss) fss)) v"
proof -
  from assms(2) obtain fs where v: "v = VObj fs"
    by (cases v) (auto simp: accepts_def)
  from assms(2) have "accepts_u False (TObj fa) (defined fs)"
    by (simp add: v accepts_defined)
  with assms(1) have "accepts_u False (norm_union (map (branch fss) fss)) (defined fs)"
    by (rule XOR_accepts_shape)
  then show ?thesis by (simp add: v accepts_defined)
qed

lemma fixture_XOR:
  "XOR (TTuple [User, Group]) =
     Some (norm_union (map (branch
       [[(''username'', False, TString), (''name'', False, TString), (''first'', True, TString)],
        [(''name'', False, TString), (''members'', True, TArray TString)]])
       [[(''username'', False, TString), (''name'', False, TString), (''first'', True, TString)],
        [(''name'', False, TString), (''members'', True, TArray TString)]]))"
  using XOR_objs [of "[[(''username'', False, TString), (''name'', False, TString), (''first'', True, TString)],
        [(''name'', False, TString), (''members'', True, TArray TString)]]"]
  by (simp add: User_def Group_def)

text \<open>
  C1, as amended.  For object shapes \<open>A\<close> and \<open>B\<close>, a literal that \<open>A\<close> accepts is accepted by
  \<^verbatim>\<open>XOR<[A,B]>\<close>, and so is one that \<open>B\<close> accepts.  A literal that has a field of \<open>A\<close> which
  is not a field of \<open>B\<close> together with a field of \<open>B\<close> which is not a field of \<open>A\<close> is
  rejected when both fields carry a value other than \<^verbatim>\<open>undefined\<close>, and whatever they
  carry when \<^verbatim>\<open>exactOptionalPropertyTypes\<close> is on.  The fixture: \<open>o2\<close> is rejected, \<open>o3\<close> and
  \<open>o4\<close> are accepted.
\<close>

theorem XOR_pair:
  "(\<exists>X. XOR (TTuple [TObj fa, TObj fb]) = Some X \<and>
      (accepts (TObj fa) va \<longrightarrow> accepts X va) \<and>
      (accepts (TObj fb) vb \<longrightarrow> accepts X vb) \<and>
      (ka \<in> fst ` set fa \<and> ka \<notin> fst ` set fb \<and> kb \<in> fst ` set fb \<and> kb \<notin> fst ` set fa \<longrightarrow>
         (ka \<in> fst ` set fs \<and> kb \<in> fst ` set fs \<longrightarrow> \<not> accepts X (VObj fs)) \<and>
         (map_of us ka = Some (Some x) \<and> map_of us kb = Some (Some y) \<longrightarrow> \<not> accepts_u exact X us) \<and>
         (ka \<in> fst ` set ws \<and> kb \<in> fst ` set ws \<longrightarrow> \<not> accepts_u True X ws))) \<and>
   map_option (\<lambda>X. accepts X o2) (XOR (TTuple [User, Group])) = Some False \<and>
   map_option (\<lambda>X. accepts X o3) (XOR (TTuple [User, Group])) = Some True \<and>
   map_option (\<lambda>X. accepts X o4) (XOR (TTuple [User, Group])) = Some True"
proof -
  let ?X = "norm_union (map (branch [fa, fb]) [fa, fb])"
  have X: "XOR (TTuple [TObj fa, TObj fb]) = Some ?X"
    using XOR_objs [of "[fa, fb]"] by simp
  have 1: "accepts (TObj fa) va \<longrightarrow> accepts ?X va"
    using XOR_accepts_value [of fa "[fa, fb]" va] by simp
  have 2: "accepts (TObj fb) vb \<longrightarrow> accepts ?X vb"
    using XOR_accepts_value [of fb "[fa, fb]" vb] by simp
  have 3: "(ka \<in> fst ` set fs \<and> kb \<in> fst ` set fs \<longrightarrow> \<not> accepts ?X (VObj fs)) \<and>
         (map_of us ka = Some (Some x) \<and> map_of us kb = Some (Some y) \<longrightarrow> \<not> accepts_u exact ?X us) \<and>
         (ka \<in> fst ` set ws \<and> kb \<in> fst ` set ws \<longrightarrow> \<not> accepts_u True ?X ws)"
    if k: "ka \<in> fst ` set fa" "ka \<notin> fst ` set fb" "kb \<in> fst ` set fb" "kb \<notin> fst ` set fa"
  proof -
    have a: "\<not> accepts ?X (VObj fs)" if "ka \<in> fst ` set fs" "kb \<in> fst ` set fs"
    proof -
      from that obtain p q where "map_of fs ka = Some p" "map_of fs kb = Some q"
        by (meson map_of_eq_None_iff not_None_eq)
      then have "map_of (defined fs) ka = Some (Some p)" "map_of (defined fs) kb = Some (Some q)"
        by (simp_all add: map_of_defined)
      then have "\<not> assignable_u False ?X (defined fs)"
        using XOR_rejects_mixed [OF k, of "defined fs" "Some p" False "Some q"] by simp
      then show ?thesis
        using accepts_defined [of False ?X fs] by (simp add: accepts_u_def)
    qed
    have b: "\<not> accepts_u exact ?X us" if "map_of us ka = Some (Some x)" "map_of us kb = Some (Some y)"
    proof -
      have "\<not> assignable_u exact ?X us"
        using XOR_rejects_mixed [OF k, of us "Some x" exact "Some y"] that by simp
      then show ?thesis by (simp add: accepts_u_def)
    qed
    have c: "\<not> accepts_u True ?X ws" if "ka \<in> fst ` set ws" "kb \<in> fst ` set ws"
    proof -
      from that obtain p q where "map_of ws ka = Some p" "map_of ws kb = Some q"
        by (meson map_of_eq_None_iff not_None_eq)
      then have "\<not> assignable_u True ?X ws"
        using XOR_rejects_mixed [OF k, of ws p True q] by simp
      then show ?thesis by (simp add: accepts_u_def)
    qed
    from a b c show ?thesis by blast
  qed
  let ?U = "[(''username'', False, TString), (''name'', False, TString), (''first'', True, TString)]"
  let ?G = "[(''name'', False, TString), (''members'', True, TArray TString)]"
  let ?F = "norm_union (map (branch [?U, ?G]) [?U, ?G])"
  have 4: "\<not> accepts ?F o2"
  proof -
    have "\<not> assignable_u False ?F [(''username'', Some (VStr ''a'')), (''name'', Some (VStr ''b'')),
        (''members'', Some (VArr []))]"
      by (rule XOR_rejects_mixed [where ka = "''username''" and kb = "''members''"
            and x = "Some (VStr ''a'')" and y = "Some (VArr [])"]) simp_all
    then show ?thesis
      using accepts_defined [of False ?F "[(''username'', VStr ''a''), (''name'', VStr ''b''), (''members'', VArr [])]"]
      by (simp add: accepts_u_def o2_def defined_def)
  qed
  have 5: "accepts ?F o3"
    by (rule XOR_accepts_value [of ?U]) (simp_all add: accepts_def o3_def)
  have 6: "accepts ?F o4"
    by (rule XOR_accepts_value [of ?G]) (simp_all add: accepts_def o4_def)
  from X 1 2 3 have "\<exists>X. XOR (TTuple [TObj fa, TObj fb]) = Some X \<and>
      (accepts (TObj fa) va \<longrightarrow> accepts X va) \<and>
      (accepts (TObj fb) vb \<longrightarrow> accepts X vb) \<and>
      (ka \<in> fst ` set fa \<and> ka \<notin> fst ` set fb \<and> kb \<in> fst ` set fb \<and> kb \<notin> fst ` set fa \<longrightarrow>
         (ka \<in> fst ` set fs \<and> kb \<in> fst ` set fs \<longrightarrow> \<not> accepts X (VObj fs)) \<and>
         (map_of us ka = Some (Some x) \<and> map_of us kb = Some (Some y) \<longrightarrow> \<not> accepts_u exact X us) \<and>
         (ka \<in> fst ` set ws \<and> kb \<in> fst ` set ws \<longrightarrow> \<not> accepts_u True X ws))"
    by blast
  with 4 5 6 show ?thesis by (simp add: fixture_XOR)
qed


theorem XOR_pair_witness:
  "\<exists>X. XOR (TTuple [User, Group]) = Some X \<and>
     accepts User o3 \<and> accepts X o3 \<and>
     accepts Group o4 \<and> accepts X o4 \<and>
     ''username'' \<in> fst ` set [(''username'', False, TString), (''name'', False, TString), (''first'', True, TString)] \<and>
     ''username'' \<notin> fst ` set [(''name'', False, TString), (''members'', True, TArray TString)] \<and>
     ''members'' \<in> fst ` set [(''name'', False, TString), (''members'', True, TArray TString)] \<and>
     ''members'' \<notin> fst ` set [(''username'', False, TString), (''name'', False, TString), (''first'', True, TString)] \<and>
     ''username'' \<in> fst ` set [(''username'', VStr ''a''), (''name'', VStr ''b''), (''members'', VArr [])] \<and>
     ''members'' \<in> fst ` set [(''username'', VStr ''a''), (''name'', VStr ''b''), (''members'', VArr [])] \<and>
     \<not> accepts X o2 \<and>
     map_of [(''username'', Some (VStr ''a'')), (''members'', Some (VArr []))] ''username'' = Some (Some (VStr ''a'')) \<and>
     map_of [(''username'', Some (VStr ''a'')), (''members'', Some (VArr []))] ''members'' = Some (Some (VArr [])) \<and>
     \<not> accepts_u False X [(''username'', Some (VStr ''a'')), (''members'', Some (VArr []))] \<and>
     ''username'' \<in> fst ` set [(''username'', Some (VStr ''a'')), (''name'', Some (VStr ''b'')), (''members'', None)] \<and>
     ''members'' \<in> fst ` set [(''username'', Some (VStr ''a'')), (''name'', Some (VStr ''b'')), (''members'', None)] \<and>
     \<not> accepts_u True X [(''username'', Some (VStr ''a'')), (''name'', Some (VStr ''b'')), (''members'', None)]"
  using XOR_pair [where fa = "[(''username'', False, TString), (''name'', False, TString), (''first'', True, TString)]"
      and fb = "[(''name'', False, TString), (''members'', True, TArray TString)]"
      and va = o3 and vb = o4 and ka = "''username''" and kb = "''members''"
      and fs = "[(''username'', VStr ''a''), (''name'', VStr ''b''), (''members'', VArr [])]"
      and us = "[(''username'', Some (VStr ''a'')), (''members'', Some (VArr []))]"
      and x = "VStr ''a''" and y = "VArr []" and exact = False
      and ws = "[(''username'', Some (VStr ''a'')), (''name'', Some (VStr ''b'')), (''members'', None)]"]
  by (simp add: accepts_def User_def Group_def o3_def o4_def o2_def)

text \<open>
  C1 as first stated fails when \<^verbatim>\<open>exactOptionalPropertyTypes\<close> is off: the literal
  \<^verbatim>\<open>{username: "a", name: "b", members: undefined}\<close> has the field \<^verbatim>\<open>username\<close> of \<open>User\<close> only
  and the field \<^verbatim>\<open>members\<close> of \<open>Group\<close> only, and \<^verbatim>\<open>XOR<[User, Group]>\<close> accepts it, because the
  branch of \<open>User\<close> declares \<^verbatim>\<open>members?: never\<close>, which \<^verbatim>\<open>undefined\<close> satisfies.
\<close>

theorem XOR_pair_counterexample:
  "''username'' \<in> fst ` set [(''username'', False, TString), (''name'', False, TString), (''first'', True, TString)] \<and>
   ''username'' \<notin> fst ` set [(''name'', False, TString), (''members'', True, TArray TString)] \<and>
   ''members'' \<in> fst ` set [(''name'', False, TString), (''members'', True, TArray TString)] \<and>
   ''members'' \<notin> fst ` set [(''username'', False, TString), (''name'', False, TString), (''first'', True, TString)] \<and>
   map_option (\<lambda>X. accepts_u False X
       [(''username'', Some (VStr ''a'')), (''name'', Some (VStr ''b'')), (''members'', None)])
     (XOR (TTuple [User, Group])) = Some True"
  by code_simp

text \<open>
  C9.  In any collection of object shapes, a literal that one of the shapes accepts is
  accepted by the \<^verbatim>\<open>XOR\<close> of the collection: the branch of a shape forbids exactly the
  fields of the other shapes that are not fields of the shape itself, so a field that
  the shape shares with other shapes is forbidden in none of their branches.  With the
  shapes of the fixture, a literal that uses only their common field \<^verbatim>\<open>name\<close> is accepted.
\<close>

theorem XOR_shared_field:
  "(\<exists>X. XOR (TTuple (map TObj fss)) = Some X \<and>
       (fa \<in> set fss \<and> accepts (TObj fa) v \<longrightarrow> accepts X v) \<and>
       (fa \<in> set fss \<and> accepts_u exact (TObj fa) us \<longrightarrow> accepts_u exact X us)) \<and>
   (\<exists>ns. XOR_elem (TTuple (map TObj fss)) (TObj fa) =
            Some (TInter (TObj fa) (TObj (map (\<lambda>n. (n, True, TNever)) ns))) \<and>
         set ns = (\<Union>gs \<in> set fss. fst ` set gs) - fst ` set fa \<and>
         (k \<in> fst ` set fa \<longrightarrow> k \<notin> set ns)) \<and>
   map_option (\<lambda>X. accepts X (VObj [(''name'', VStr s)])) (XOR (TTuple [User, Group])) = Some True"
proof -
  let ?X = "norm_union (map (branch fss) fss)"
  have X: "XOR (TTuple (map TObj fss)) = Some ?X"
    by (rule XOR_objs)
  have 1: "fa \<in> set fss \<and> accepts (TObj fa) v \<longrightarrow> accepts ?X v"
    using XOR_accepts_value [of fa fss v] by blast
  have 2: "fa \<in> set fss \<and> accepts_u exact (TObj fa) us \<longrightarrow> accepts_u exact ?X us"
    using XOR_accepts_shape [of fa fss exact us] by blast
  from XOR_elem_obj [of fss fa] obtain ns where
    ns: "XOR_elem (TTuple (map TObj fss)) (TObj fa) =
            Some (TInter (TObj fa) (TObj (map (\<lambda>n. (n, True, TNever)) ns)))"
      "set ns = (\<Union>gs \<in> set fss. fst ` set gs) - fst ` set fa"
    by blast
  from ns(2) have 3: "k \<in> fst ` set fa \<longrightarrow> k \<notin> set ns"
    by simp
  let ?U = "[(''username'', False, TString), (''name'', False, TString), (''first'', True, TString)]"
  let ?G = "[(''name'', False, TString), (''members'', True, TArray TString)]"
  have 4: "accepts (norm_union (map (branch [?U, ?G]) [?U, ?G])) (VObj [(''name'', VStr s)])"
    by (rule XOR_accepts_value [of ?G]) (simp_all add: accepts_def)
  from X 1 2 have "\<exists>X. XOR (TTuple (map TObj fss)) = Some X \<and>
       (fa \<in> set fss \<and> accepts (TObj fa) v \<longrightarrow> accepts X v) \<and>
       (fa \<in> set fss \<and> accepts_u exact (TObj fa) us \<longrightarrow> accepts_u exact X us)"
    by blast
  moreover from ns 3 have "\<exists>ns. XOR_elem (TTuple (map TObj fss)) (TObj fa) =
            Some (TInter (TObj fa) (TObj (map (\<lambda>n. (n, True, TNever)) ns))) \<and>
         set ns = (\<Union>gs \<in> set fss. fst ` set gs) - fst ` set fa \<and>
         (k \<in> fst ` set fa \<longrightarrow> k \<notin> set ns)"
    by blast
  ultimately show ?thesis using 4 by (simp add: fixture_XOR)
qed

theorem XOR_shared_field_witness:
  "(\<exists>X. XOR (TTuple [User, Group]) = Some X \<and>
       [(''name'', False, TString), (''members'', True, TArray TString)] \<in>
         set [[(''username'', False, TString), (''name'', False, TString), (''first'', True, TString)],
              [(''name'', False, TString), (''members'', True, TArray TString)]] \<and>
       accepts Group (VObj [(''name'', VStr ''c'')]) \<and>
       accepts X (VObj [(''name'', VStr ''c'')]) \<and>
       accepts_u True Group [(''name'', Some (VStr ''c''))] \<and>
       accepts_u True X [(''name'', Some (VStr ''c''))]) \<and>
   (\<exists>ns. XOR_elem (TTuple [User, Group]) Group =
            Some (TInter Group (TObj (map (\<lambda>n. (n, True, TNever)) ns))) \<and>
         set ns = (\<Union>gs \<in> set [[(''username'', False, TString), (''name'', False, TString), (''first'', True, TString)],
              [(''name'', False, TString), (''members'', True, TArray TString)]]. fst ` set gs) -
           fst ` set [(''name'', False, TString), (''members'', True, TArray TString)] \<and>
         ''name'' \<in> fst ` set [(''name'', False, TString), (''members'', True, TArray TString)] \<and>
         ''name'' \<notin> set ns)"
  using XOR_shared_field [where fss = "[[(''username'', False, TString), (''name'', False, TString), (''first'', True, TString)],
              [(''name'', False, TString), (''members'', True, TArray TString)]]"
      and fa = "[(''name'', False, TString), (''members'', True, TArray TString)]"
      and v = "VObj [(''name'', VStr ''c'')]" and exact = True
      and us = "[(''name'', Some (VStr ''c''))]" and k = "''name''" and s = "''c''"]
  by (simp add: accepts_def accepts_u_def excess_u_def field_ok_def User_def Group_def)

subsection \<open>Tuples of unions\<close>

lemma UnionToTuple_strict:
  assumes "\<forall>m \<in> set (constituents T). \<exists>x \<in> set (constituents T). \<not> ext x m"
  shows "UnionToTuple True T = TTuple []"
proof -
  have "\<not> list_ex (\<lambda>m. ext m W \<and>
                 (list_all (\<lambda>x. ext x m) (constituents T) \<or>
                  \<not> True \<and> list_ex (\<lambda>x. ext m x) (constituents T)))
               (constituents T)" for W
    using assms by (auto simp: list_ex_iff list_all_iff)
  then have "UnionToTuple_elems True T = []"
    by (subst UnionToTuple_elems.simps) (cases "rev (constituents T)", simp_all only: list.case if_False)
  then show ?thesis by (simp add: UnionToTuple_def)
qed

lemma sub_lit_ext: "sub_lit m b \<Longrightarrow> ext m b"
  by (cases m) (simp_all add: ext_def)

lemma distinct_constituents: "distinct (constituents T)"
  by (simp add: constituents_def distinct_absorb)

lemma not_sub_lit_self: "\<not> sub_lit a a"
  by (cases a) simp_all

lemma absorb_unrelated:
  assumes "distinct ms" and "\<forall>a \<in> set ms. \<forall>b \<in> set ms. a \<noteq> b \<longrightarrow> \<not> ext a b"
  shows "absorb ms = ms"
  using assms(1)
proof (rule absorb_distinct_plain)
  show "\<forall>m \<in> set ms. \<forall>b \<in> set ms. \<not> sub_lit m b"
  proof (intro ballI notI)
    fix m b assume m: "m \<in> set ms" "b \<in> set ms" and s: "sub_lit m b"
    from s have "m \<noteq> b" using not_sub_lit_self by auto
    with assms(2) m have "\<not> ext m b" by blast
    with s show False by (simp add: sub_lit_ext)
  qed
qed

lemma UnionToTuple_unrelated:
  assumes "constituents T = ms"
    and "\<forall>a \<in> set ms. \<forall>b \<in> set ms. a \<noteq> b \<longrightarrow> \<not> ext a b"
  shows "UnionToTuple_elems False T = ms"
  using assms
proof (induction ms arbitrary: T rule: rev_induct)
  case Nil
  then show ?case by (subst UnionToTuple_elems.simps) simp
next
  case (snoc W xs)
  have d: "distinct (xs @ [W])"
    using distinct_constituents [of T] snoc.prems(1) by simp
  have f: "filter (\<lambda>m. \<not> ext m W) (xs @ [W]) = xs"
  proof -
    have "\<forall>m \<in> set xs. \<not> ext m W"
      using snoc.prems(2) d by auto
    then have "filter (\<lambda>m. \<not> ext m W) xs = xs"
      by (simp add: filter_id_conv)
    then show ?thesis by (simp add: ext_def)
  qed
  have u: "\<forall>a \<in> set xs. \<forall>b \<in> set xs. a \<noteq> b \<longrightarrow> \<not> ext a b"
    using snoc.prems(2) by simp
  have a: "absorb xs = xs"
    using d u by (intro absorb_unrelated) simp_all
  have c: "constituents (Exclude T W) = xs"
    unfolding constituents_Exclude snoc.prems(1) f a ..
  have r: "UnionToTuple_elems False (Exclude T W) = xs"
    using c u by (rule snoc.IH)
  have t: "list_ex (\<lambda>m. ext m W \<and>
                 (list_all (\<lambda>x. ext x m) (xs @ [W]) \<or>
                  \<not> False \<and> list_ex (\<lambda>x. ext m x) (xs @ [W])))
               (xs @ [W])"
    unfolding list_ex_iff by (rule bexI [of _ W]) (simp_all add: ext_def)
  have "UnionToTuple_elems False T =
     (if list_ex (\<lambda>m. ext m W \<and>
                 (list_all (\<lambda>x. ext x m) (xs @ [W]) \<or>
                  \<not> False \<and> list_ex (\<lambda>x. ext m x) (xs @ [W])))
               (xs @ [W])
          then UnionToTuple_elems False (Exclude T W) @ [W]
          else [])"
    using UnionToTuple_elems.simps [of False T] unfolding snoc.prems(1)
    by (simp only: rev_append rev.simps append_Nil append_Cons list.case)
  then show ?case
    by (simp only: t if_True r)
qed

lemma roundtrip_unrelated:
  assumes "\<forall>a \<in> set (constituents T). \<forall>b \<in> set (constituents T). a \<noteq> b \<longrightarrow> \<not> ext a b"
  shows "UnionToTuple False T = TTuple (constituents T)"
    and "\<exists>U. ArrayToUnion (UnionToTuple False T) = Some U \<and> same_union U T"
proof -
  let ?ms = "constituents T"
  show 1: "UnionToTuple False T = TTuple ?ms"
    using UnionToTuple_unrelated [OF refl assms] by (simp add: UnionToTuple_def)
  have a: "absorb ?ms = ?ms"
    using distinct_constituents assms by (intro absorb_unrelated) simp_all
  have "concat (map flat ?ms) = ?ms" "concat (map members ?ms) = ?ms"
    using constituents_atomic [of _ T] by (simp_all add: concat_map_single)
  then have "constituents (norm_union ?ms) = ?ms"
    by (simp add: constituents_def [of "norm_union _"] members_norm_union a)
  then show "\<exists>U. ArrayToUnion (UnionToTuple False T) = Some U \<and> same_union U T"
    by (simp add: 1 same_union_def)
qed

text \<open>
  C3.  The round trip fails.  Under \<^verbatim>\<open>strictFunctionTypes\<close>, \<^verbatim>\<open>UnionToTuple\<close> gives the empty
  tuple for every union in which no constituent is extended by all constituents, so for
  \<^verbatim>\<open>"a" | "b"\<close>, and \<^verbatim>\<open>ArrayToUnion\<close> of the empty tuple is \<^verbatim>\<open>never\<close>.  Under either setting
  \<^verbatim>\<open>UnionToTuple<User | Group>\<close> is \<^verbatim>\<open>[Group]\<close>, because \<^verbatim>\<open>Exclude\<close> takes away with \<^verbatim>\<open>Group\<close>
  the type \<^verbatim>\<open>User\<close> that extends it.  Without \<^verbatim>\<open>strictFunctionTypes\<close>, and for a union in
  which no constituent extends another, the tuple lists the constituents in their order
  and the round trip gives the union back; \<^verbatim>\<open>"a" | "b"\<close> then gives \<^verbatim>\<open>["a", "b"]\<close>.
\<close>

theorem UnionToTuple_diverges:
  "((\<forall>m \<in> set (constituents T). \<exists>x \<in> set (constituents T). \<not> ext x m) \<longrightarrow>
      UnionToTuple True T = TTuple []) \<and>
   ((\<forall>a \<in> set (constituents T). \<forall>b \<in> set (constituents T). a \<noteq> b \<longrightarrow> \<not> ext a b) \<longrightarrow>
      UnionToTuple False T = TTuple (constituents T) \<and>
      (\<exists>U. ArrayToUnion (UnionToTuple False T) = Some U \<and> same_union U T)) \<and>
   UnionToTuple True (TUnion [TStrLit ''a'', TStrLit ''b'']) = TTuple [] \<and>
   ArrayToUnion (UnionToTuple True (TUnion [TStrLit ''a'', TStrLit ''b''])) = Some TNever \<and>
   \<not> same_union TNever (TUnion [TStrLit ''a'', TStrLit ''b'']) \<and>
   UnionToTuple False (TUnion [TStrLit ''a'', TStrLit ''b'']) = TTuple [TStrLit ''a'', TStrLit ''b''] \<and>
   UnionToTuple True (TUnion [User, Group]) = TTuple [Group] \<and>
   UnionToTuple False (TUnion [User, Group]) = TTuple [Group] \<and>
   ArrayToUnion (TTuple [Group]) = Some Group \<and>
   \<not> same_union Group (TUnion [User, Group])"
proof -
  have 1: "(\<forall>m \<in> set (constituents T). \<exists>x \<in> set (constituents T). \<not> ext x m) \<longrightarrow>
      UnionToTuple True T = TTuple []"
    using UnionToTuple_strict [of T] by blast
  have 0: "(\<forall>a \<in> set (constituents T). \<forall>b \<in> set (constituents T). a \<noteq> b \<longrightarrow> \<not> ext a b) \<longrightarrow>
      UnionToTuple False T = TTuple (constituents T) \<and>
      (\<exists>U. ArrayToUnion (UnionToTuple False T) = Some U \<and> same_union U T)"
    using roundtrip_unrelated [of T] by blast
  have 2: "UnionToTuple True (TUnion [TStrLit ''a'', TStrLit ''b'']) = TTuple []"
    by code_simp
  have 3: "ArrayToUnion (UnionToTuple True (TUnion [TStrLit ''a'', TStrLit ''b''])) = Some TNever"
    by code_simp
  have 4: "\<not> same_union TNever (TUnion [TStrLit ''a'', TStrLit ''b''])"
    by code_simp
  have 5: "UnionToTuple False (TUnion [TStrLit ''a'', TStrLit ''b'']) = TTuple [TStrLit ''a'', TStrLit ''b'']"
    by code_simp
  have 6: "UnionToTuple True (TUnion [User, Group]) = TTuple [Group]"
    by code_simp
  have 7: "UnionToTuple False (TUnion [User, Group]) = TTuple [Group]"
    by code_simp
  have 8: "ArrayToUnion (TTuple [Group]) = Some Group"
    by code_simp
  have 9: "\<not> same_union Group (TUnion [User, Group])"
    by code_simp
  from 0 1 2 3 4 5 6 7 8 9 show ?thesis by blast
qed

lemma literal_fixture:
  "constituents (TUnion [TStrLit ''a'', TStrLit ''b'']) = [TStrLit ''a'', TStrLit ''b'']"
  "\<not> ext (TStrLit ''a'') (TStrLit ''b'')" "\<not> ext (TStrLit ''b'') (TStrLit ''a'')"
  "same_union (norm_union [TStrLit ''a'', TStrLit ''b'']) (TUnion [TStrLit ''a'', TStrLit ''b''])"
  by code_simp+

theorem UnionToTuple_diverges_witness:
  "constituents (TUnion [TStrLit ''a'', TStrLit ''b'']) = [TStrLit ''a'', TStrLit ''b''] \<and>
   \<not> ext (TStrLit ''a'') (TStrLit ''b'') \<and> \<not> ext (TStrLit ''b'') (TStrLit ''a'') \<and>
   UnionToTuple True (TUnion [TStrLit ''a'', TStrLit ''b'']) = TTuple [] \<and>
   UnionToTuple False (TUnion [TStrLit ''a'', TStrLit ''b'']) = TTuple [TStrLit ''a'', TStrLit ''b''] \<and>
   (\<exists>U. ArrayToUnion (UnionToTuple False (TUnion [TStrLit ''a'', TStrLit ''b''])) = Some U \<and>
        same_union U (TUnion [TStrLit ''a'', TStrLit ''b'']))"
  using UnionToTuple_diverges [where T = "TUnion [TStrLit ''a'', TStrLit ''b'']"]
  by (simp add: literal_fixture)

subsection \<open>Intersections of unions\<close>

lemma constituents_objs_list:
  assumes "distinct fss"
  shows "constituents (TUnion (map TObj fss)) = map TObj fss"
proof -
  have "concat (map members (map TObj fss)) = map TObj fss"
    by (induction fss) auto
  moreover have "absorb (map TObj fss) = map TObj fss"
    using assms by (intro absorb_distinct_plain) (auto simp: distinct_map inj_on_def)
  ultimately show ?thesis by (simp add: constituents_def)
qed

lemma parts_objs: "concat (map parts (map TObj fss)) = map TObj fss"
  by (induction fss) auto

lemma fields_objs: "those (map fields (map TObj fss)) = Some fss"
  by (induction fss) auto

lemma UnionToIntersection_objs:
  assumes "distinct fss"
  shows "UnionToIntersection snc (TUnion (map TObj fss)) =
    (case conflict snc fss of None \<Rightarrow> None
     | Some c \<Rightarrow> Some (if c then TNever else meet (map TObj fss)))"
proof -
  have f: "filter (\<lambda>p. p \<noteq> TUnknown) (map TObj fss) = map TObj fss"
    by (induction fss) auto
  have d: "remdups (map TObj fss) = map TObj fss"
    using assms by (simp add: distinct_map inj_on_def)
  have n: "TNever \<notin> set (map TObj fss)" "TUnknown \<notin> set (map TObj fss)"
    by auto
  show ?thesis
    unfolding UnionToIntersection_def constituents_objs_list [OF assms] intersection_def parts_objs f d
      Let_def fields_objs
    using n by simp
qed

lemma known_meet: "known (meet ts) k \<longleftrightarrow> (\<exists>t \<in> set ts. known t k)"
  by (induction ts rule: meet.induct) auto

lemma assignable_meet: "assignable (meet ts) v \<longleftrightarrow> (\<forall>t \<in> set ts. assignable t v)"
  by (induction ts rule: meet.induct) auto

lemma entries_subset: "e \<in> set (entries n fss) \<Longrightarrow> \<exists>fs \<in> set fss. (n, e) \<in> set fs"
proof -
  assume "e \<in> set (entries n fss)"
  then obtain fs where "fs \<in> set fss" "map_of fs n = Some e"
    by (auto simp: entries_def split: option.splits)
  then show ?thesis by (auto dest: map_of_SomeD)
qed

lemma conflict_no_literal:
  assumes "\<forall>fs \<in> set fss. \<forall>(n, e) \<in> set fs. \<not> literal_prop snc e"
  shows "conflict snc fss = Some False"
proof -
  have "discriminant_never snc (entries n fss) = Some False" for n
  proof -
    have "\<not> list_ex (literal_prop snc) (entries n fss)"
      using assms entries_subset [of _ n fss] by (fastforce simp: list_ex_iff)
    then show ?thesis by (simp add: discriminant_never_def)
  qed
  then show ?thesis by (auto simp: conflict_def any3_def)
qed

lemma those_None: "None \<in> set xs \<Longrightarrow> those xs = None"
  by (induction xs) (auto split: option.splits)

lemma UnionToIntersection_clash:
  assumes b: "\<forall>p \<in> set (constituents T). base p \<noteq> None"
    and a: "x \<in> set (constituents T)" "y \<in> set (constituents T)" "clash snc x y = Some True"
  shows "UnionToIntersection snc T = Some TNever"
proof -
  let ?cs = "constituents T"
  have p: "parts m = [m]" if "m \<in> set ?cs" for m
    using b that by (cases m) auto
  then have c: "concat (map parts ?cs) = ?cs"
    by (intro concat_map_single) simp
  have u: "TUnknown \<notin> set ?cs" "TNever \<notin> set ?cs"
    using b by auto
  then have f: "filter (\<lambda>p. p \<noteq> TUnknown) ?cs = ?cs"
    by (auto simp: filter_id_conv)
  let ?ps = "remdups ?cs"
  have "fields x = None"
    using b a(1) by (cases x) auto
  then have "None \<in> set (map fields ?ps)"
    using a(1) by force
  then have t: "those (map fields ?ps) = None"
    by (rule those_None)
  have e: "empty_meet snc ?ps = Some True"
    using a by (force simp: empty_meet_def any3_def)
  have l: "list_all (\<lambda>p. base p \<noteq> None \<or> nullable p) ?ps"
    using b by (simp add: list_all_iff)
  show ?thesis
    unfolding UnionToIntersection_def intersection_def c f Let_def
    using u t e l by simp
qed


lemma conflict_fixture:
  "conflict True [[(''a'', False, TString)], [(''b'', True, TNumber)]] = Some False"
  "conflict True [[(''dt'', False, TStrLit ''a'')], [(''dt'', False, TStrLit ''b'')]] = Some True"
  "clash True TString TNumber = Some True" "clash False TString TNumber = Some True"
  "constituents (TUnion [TString, TNumber]) = [TString, TNumber]"
  "\<not> literal_prop True (False, TString)" "\<not> literal_prop True (True, TNumber)"
  by code_simp+

text \<open>
  C4 as first stated fails for object types with a discriminant:
  \<^verbatim>\<open>UnionToIntersection<{dt: "a"} | {dt: "b"}>\<close> is \<^verbatim>\<open>never\<close>, which is not an object type and
  knows no property; so is \<^verbatim>\<open>UnionToIntersection<StringPropDef | IntPropDef>\<close>.
\<close>

theorem UnionToIntersection_counterexample:
  "UnionToIntersection True
     (TUnion [TObj [(''dt'', False, TStrLit ''a'')], TObj [(''dt'', False, TStrLit ''b'')]]) = Some TNever \<and>
   UnionToIntersection False
     (TUnion [TObj [(''dt'', False, TStrLit ''a'')], TObj [(''dt'', False, TStrLit ''b'')]]) = Some TNever \<and>
   \<not> known TNever ''dt'' \<and>
   UnionToIntersection True (TUnion [StringPropDef, IntPropDef]) = Some TNever \<and>
   UnionToIntersection False (TUnion [StringPropDef, IntPropDef]) = Some TNever"
  by code_simp

text \<open>
  C4, as amended.  For a union of different object types in which no property is a
  discriminant of the type \<^verbatim>\<open>never\<close>, \<^verbatim>\<open>UnionToIntersection\<close> gives a type that knows exactly
  the properties of the members and that a literal is assignable to exactly when it is
  assignable to every member; this is so whenever no property has a literal type.  When a
  property is such a discriminant, the result is \<^verbatim>\<open>never\<close>.  For a union of primitive and
  literal types of which two clash, such as \<^verbatim>\<open>string | number\<close>, the result is \<^verbatim>\<open>never\<close>.
\<close>

theorem UnionToIntersection_cases:
  "(distinct fss \<and> conflict snc fss = Some False \<longrightarrow>
      (\<exists>R. UnionToIntersection snc (TUnion (map TObj fss)) = Some R \<and>
           (known R k \<longleftrightarrow> k \<in> (\<Union>fs \<in> set fss. fst ` set fs)) \<and>
           (assignable R v \<longleftrightarrow> (\<forall>fs \<in> set fss. assignable (TObj fs) v)))) \<and>
   ((\<forall>fs \<in> set fss. \<forall>(n, e) \<in> set fs. \<not> literal_prop snc e) \<longrightarrow> conflict snc fss = Some False) \<and>
   (distinct gss \<and> conflict snc gss = Some True \<longrightarrow>
      UnionToIntersection snc (TUnion (map TObj gss)) = Some TNever) \<and>
   ((\<forall>p \<in> set (constituents T). base p \<noteq> None) \<and>
    x \<in> set (constituents T) \<and> y \<in> set (constituents T) \<and> clash snc x y = Some True \<longrightarrow>
      UnionToIntersection snc T = Some TNever) \<and>
   UnionToIntersection snc (TUnion [TString, TNumber]) = Some TNever"
proof -
  have 1: "\<exists>R. UnionToIntersection snc (TUnion (map TObj fss)) = Some R \<and>
           (known R k \<longleftrightarrow> k \<in> (\<Union>fs \<in> set fss. fst ` set fs)) \<and>
           (assignable R v \<longleftrightarrow> (\<forall>fs \<in> set fss. assignable (TObj fs) v))"
    if "distinct fss" "conflict snc fss = Some False"
  proof -
    have "UnionToIntersection snc (TUnion (map TObj fss)) = Some (meet (map TObj fss))"
      using UnionToIntersection_objs [OF that(1), of snc] that(2) by simp
    moreover have "known (meet (map TObj fss)) k \<longleftrightarrow> k \<in> (\<Union>fs \<in> set fss. fst ` set fs)"
      by (auto simp: known_meet)
    moreover have "assignable (meet (map TObj fss)) v \<longleftrightarrow> (\<forall>fs \<in> set fss. assignable (TObj fs) v)"
      unfolding assignable_meet by auto
    ultimately show ?thesis by blast
  qed
  have 2: "(\<forall>fs \<in> set fss. \<forall>(n, e) \<in> set fs. \<not> literal_prop snc e) \<longrightarrow> conflict snc fss = Some False"
    using conflict_no_literal [of fss snc] by blast
  have 3: "UnionToIntersection snc (TUnion (map TObj gss)) = Some TNever"
    if "distinct gss" "conflict snc gss = Some True"
    using UnionToIntersection_objs [OF that(1), of snc] that(2) by simp
  have 4: "UnionToIntersection snc T = Some TNever"
    if "\<forall>p \<in> set (constituents T). base p \<noteq> None"
      "x \<in> set (constituents T)" "y \<in> set (constituents T)" "clash snc x y = Some True"
    using that by (rule UnionToIntersection_clash)
  have 5: "UnionToIntersection snc (TUnion [TString, TNumber]) = Some TNever"
    by (cases snc; rule UnionToIntersection_clash [of _ TString TNumber]) (simp_all add: conflict_fixture)
  from 1 2 3 4 5 show ?thesis by blast
qed

theorem UnionToIntersection_cases_witness:
  "distinct [[(''a'', False, TString)], [(''b'', True, TNumber)]] \<and>
   conflict True [[(''a'', False, TString)], [(''b'', True, TNumber)]] = Some False \<and>
   (\<exists>R. UnionToIntersection True
          (TUnion (map TObj [[(''a'', False, TString)], [(''b'', True, TNumber)]])) = Some R \<and>
        known R ''b'' \<and> assignable R (VObj [(''a'', VStr ''x'')])) \<and>
   assignable (TObj [(''a'', False, TString)]) (VObj [(''a'', VStr ''x'')]) \<and>
   assignable (TObj [(''b'', True, TNumber)]) (VObj [(''a'', VStr ''x'')]) \<and>
   \<not> literal_prop True (False, TString) \<and> \<not> literal_prop True (True, TNumber) \<and>
   distinct [[(''dt'', False, TStrLit ''a'')], [(''dt'', False, TStrLit ''b'')]] \<and>
   conflict True [[(''dt'', False, TStrLit ''a'')], [(''dt'', False, TStrLit ''b'')]] = Some True \<and>
   UnionToIntersection True
     (TUnion (map TObj [[(''dt'', False, TStrLit ''a'')], [(''dt'', False, TStrLit ''b'')]])) = Some TNever \<and>
   constituents (TUnion [TString, TNumber]) = [TString, TNumber] \<and>
   base TString \<noteq> None \<and> base TNumber \<noteq> None \<and> clash True TString TNumber = Some True \<and>
   UnionToIntersection True (TUnion [TString, TNumber]) = Some TNever"
  using UnionToIntersection_cases [where fss = "[[(''a'', False, TString)], [(''b'', True, TNumber)]]"
      and snc = True and k = "''b''" and v = "VObj [(''a'', VStr ''x'')]"
      and gss = "[[(''dt'', False, TStrLit ''a'')], [(''dt'', False, TStrLit ''b'')]]"
      and T = "TUnion [TString, TNumber]" and x = TString and y = TNumber]
  by (simp add: conflict_fixture)

end
